theory Spec2Isabelle
  imports Complex_Main "HOL-Library.Log_Nat"
begin

section \<open>Data model\<close>

text \<open>
  The dashboard works on a pandas data frame of hospital encounters. A data frame is
  modelled as the list of its rows, in index order; a column (a pandas Series) is the list
  of that field over the rows.

  A float64 value is modelled as \<open>rat option\<close>: \<open>None\<close> is NaN (what
  \<open>pd.to_numeric(..., errors="coerce")\<close> stores for a non-numeric cell, and what
  \<open>mean()\<close> of an empty Series returns), \<open>Some q\<close> is the finite number \<open>q\<close>.
  Every float64 operation rounds its exact result to double precision (\<open>fl\<close> below).
\<close>

type_synonym float64 = "rat option"

record encounter =
  age_group :: string
  gender :: string
  admission_type_id :: int
  time_in_hospital :: int
  num_medications :: float64
  readmitted :: string

type_synonym dataframe = "encounter list"

section \<open>Double precision\<close>

text \<open>
  \<open>round_half_even\<close> is the nearest integer, a tie going to the even one: what
  \<open>rint\<close> does, and how IEEE 754 rounds a significand.
\<close>

definition round_half_even :: "rat \<Rightarrow> int" where
  "round_half_even x =
     (let f = \<lfloor>x\<rfloor>; r = x - of_int f
      in if r < 1 / 2 then f
         else if 1 / 2 < r then f + 1
         else if even f then f else f + 1)"

text \<open>
  The binary exponent of a non-zero number \<open>x\<close>: the integer \<open>e\<close> with
  \<open>2 ^ e \<le> |x| < 2 ^ (e + 1)\<close>, from the bit lengths of numerator and denominator.
\<close>

definition float_exponent :: "rat \<Rightarrow> int" where
  "float_exponent x =
     (case quotient_of \<bar>x\<bar> of
        (p, q) \<Rightarrow> let e = bitlen p - bitlen q
                  in if 2 powi e \<le> \<bar>x\<bar> then e else e - 1)"

text \<open>
  \<open>fl x\<close> is the float64 nearest to \<open>x\<close>, a tie going to the even significand
  (IEEE 754 round-to-nearest-even): \<open>x\<close> is scaled to a significand of 53 bits, which
  is rounded to an integer. This is what each float64 operation of numpy and of Python
  does to its exact result. The exponent is not bounded here: there is no overflow to
  infinity and no subnormal range (magnitudes below \<open>2 ^ -1022\<close> or from
  \<open>2 ^ 1024\<close> on are outside this model).
\<close>

definition fl :: "rat \<Rightarrow> rat" where
  "fl x = (if x = 0 then 0
           else let e = float_exponent x - 52
                in of_int (round_half_even (x * 2 powi (- e))) * 2 powi e)"

text \<open>
  The numbers of the Python code are of three kinds, which multiply, divide and round
  differently: a numpy \<open>int64\<close>, a numpy \<open>float64\<close> scalar (possibly NaN) and a
  Python \<open>float\<close> (a literal such as \<open>0.0\<close> or \<open>0.5\<close>).
\<close>

datatype pynum = Int64 int | NpFloat float64 | PyFloat rat

section \<open>The pandas operations the core uses\<close>

text \<open>\<open>Series.isin(values)\<close>: the boolean mask of membership, row by row.\<close>

definition isin :: "'a list \<Rightarrow> 'a list \<Rightarrow> bool list" where
  "isin col vals = map (\<lambda>v. v \<in> set vals) col"

text \<open>\<open>mask1 & mask2\<close> and \<open>~mask\<close> on boolean Series of one frame.\<close>

definition series_and :: "bool list \<Rightarrow> bool list \<Rightarrow> bool list" where
  "series_and m1 m2 = map2 (\<and>) m1 m2"

definition series_not :: "bool list \<Rightarrow> bool list" where
  "series_not m = map Not m"

text \<open>\<open>Series == value\<close>.\<close>

definition series_eq :: "'a list \<Rightarrow> 'a \<Rightarrow> bool list" where
  "series_eq col v = map (\<lambda>x. x = v) col"

text \<open>\<open>Series >= k\<close> on a float64 column: a comparison with NaN is False.\<close>

definition series_ge :: "float64 list \<Rightarrow> rat \<Rightarrow> bool list" where
  "series_ge col k = map (\<lambda>x. case x of None \<Rightarrow> False | Some y \<Rightarrow> k \<le> y) col"

text \<open>\<open>df[mask]\<close>: the rows whose mask entry is True, in order.\<close>

definition boolean_index :: "'a list \<Rightarrow> bool list \<Rightarrow> 'a list" where
  "boolean_index df msk = map fst (filter snd (zip df msk))"

text \<open>\<open>mask.sum()\<close>: the number of True entries.\<close>

definition series_sum :: "bool list \<Rightarrow> nat" where
  "series_sum m = length (filter id m)"

text \<open>
  \<open>Series.mean()\<close> of an integer and of a boolean column. pandas (\<open>nanops.nanmean\<close>)
  sums the values as float64 and divides by the count as float64; for an empty Series it
  returns NaN and does not raise. A boolean counts as 1 or 0.

  The float64 sum converts each value and adds it to the running sum, each addition
  rounding. numpy adds in a pairwise order, here the order is left to right; the two agree
  whenever every partial sum is a float64, as for non-negative integers with a total below
  \<open>2 ^ 53\<close>.
\<close>

fun float_sum_from :: "rat \<Rightarrow> int list \<Rightarrow> rat" where
  "float_sum_from acc [] = acc"
| "float_sum_from acc (v # vs) = float_sum_from (fl (acc + fl (of_int v))) vs"

definition float_sum :: "int list \<Rightarrow> rat" where
  "float_sum xs = float_sum_from 0 xs"

definition mean_int :: "int list \<Rightarrow> float64" where
  "mean_int xs = (if xs = [] then None
                  else Some (fl (float_sum xs / fl (of_nat (length xs)))))"

definition mean_bool :: "bool list \<Rightarrow> float64" where
  "mean_bool m = mean_int (map (\<lambda>b. if b then 1 else 0) m)"

text \<open>Multiplying a float64 by a constant: the product is rounded, NaN stays NaN.\<close>

definition fmul :: "float64 \<Rightarrow> rat \<Rightarrow> float64" where
  "fmul x k = map_option (\<lambda>q. fl (q * k)) x"

text \<open>
  Rounding a number exactly to \<open>n\<close> decimals: to the nearest multiple of
  \<open>10 ^ -n\<close>, a tie going to the even one.
\<close>

definition round_ndigits :: "rat \<Rightarrow> nat \<Rightarrow> rat" where
  "round_ndigits x n = of_int (round_half_even (x * 10 ^ n)) / 10 ^ n"

text \<open>
  numpy's rounding of a float64 to \<open>n\<close> decimals (\<open>PyArray_Round\<close>): multiply by
  \<open>10 ^ n\<close>, \<open>rint\<close>, divide by \<open>10 ^ n\<close>, the product and the quotient each
  rounded to float64.
\<close>

definition np_round :: "rat \<Rightarrow> nat \<Rightarrow> rat" where
  "np_round q n = fl (of_int (round_half_even (fl (q * 10 ^ n))) / 10 ^ n)"

text \<open>
  \<open>round(x, ndigits)\<close>. A numpy float64 scalar is rounded by numpy
  (\<open>np.float64.__round__\<close>), NaN staying NaN. A Python float is rounded by Python, which
  rounds the exact value of the float to \<open>n\<close> decimals and returns the float64 nearest
  to that. An int64 is returned as it is.
\<close>

fun py_round :: "pynum \<Rightarrow> nat \<Rightarrow> float64" where
  "py_round (NpFloat x) n = map_option (\<lambda>q. np_round q n) x"
| "py_round (PyFloat q) n = Some (fl (round_ndigits q n))"
| "py_round (Int64 i) n = Some (of_int i)"

section \<open>Filter engine\<close>

text \<open>
  \<open>get_filtered_data\<close>, lines 147 to 153. The three selections come from the sidebar
  widgets and are parameters here, as is the loaded frame \<open>df_raw\<close>.
\<close>

definition get_filtered_data ::
  "dataframe \<Rightarrow> string list \<Rightarrow> string list \<Rightarrow> int list \<Rightarrow> dataframe" where
  "get_filtered_data df_raw age_selected gender_selected adm_selected =
     boolean_index df_raw
       (series_and
          (series_and (isin (map age_group df_raw) age_selected)
                      (isin (map gender df_raw) gender_selected))
          (isin (map admission_type_id df_raw) adm_selected))"

section \<open>KPI aggregator\<close>

text \<open>
  \<open>compute_kpis\<close>, lines 166 to 193. The returned dict is a record; the two values of
  the second \<open>if\<close> are assigned together, as in the source, and only the polypharmacy
  rate is rounded after it. A rate computed from \<open>mean()\<close> is a numpy float64, the
  \<open>0.0\<close> of an \<open>else\<close> branch is a Python float.
\<close>

record kpis =
  readmission_rate :: float64
  avg_los_readmitted :: float64
  polypharmacy_rate :: float64
  readmitted_df :: dataframe

definition compute_kpis :: "dataframe \<Rightarrow> kpis" where
  "compute_kpis df =
     (let rate0 = (if length df > 0
                   then NpFloat (fmul (mean_bool (series_eq (map readmitted df) ''<30'')) 100)
                   else PyFloat 0);
          rate = py_round rate0 1;
          rdf = boolean_index df (isin (map readmitted df) [''<30'', ''>30'']);
          (los, poly0) =
            (if length rdf > 0
             then (py_round (NpFloat (mean_int (map time_in_hospital rdf))) 1,
                   NpFloat (fmul (mean_bool (series_ge (map num_medications rdf) 10)) 100))
             else (Some 0, PyFloat 0));
          poly = py_round poly0 1
      in \<lparr>readmission_rate = rate, avg_los_readmitted = los,
          polypharmacy_rate = poly, readmitted_df = rdf\<rparr>)"

section \<open>Association statistic\<close>

text \<open>
  The odds-ratio expander of \<open>show_overview\<close>, lines 511 to 545. What a section puts on
  the page is either an \<open>st.info\<close> message or the values it shows.
\<close>

datatype 'a display = Info string | Shown 'a

datatype py_error = ZeroDivisionError

record contingency =
  cell_a :: nat
  cell_b :: nat
  cell_c :: nat
  cell_d :: nat

text \<open>Lines 513 to 520: the two flag columns and the four counts.\<close>

definition contingency_counts :: "dataframe \<Rightarrow> contingency" where
  "contingency_counts df =
     (let polypharmacy = series_ge (map num_medications df) 10;
          readmitted_30_flag = series_eq (map readmitted df) ''<30''
      in \<lparr>cell_a = series_sum (series_and polypharmacy readmitted_30_flag),
          cell_b = series_sum (series_and polypharmacy (series_not readmitted_30_flag)),
          cell_c = series_sum (series_and (series_not polypharmacy) readmitted_30_flag),
          cell_d = series_sum (series_and (series_not polypharmacy)
                                 (series_not readmitted_30_flag))\<rparr>)"

text \<open>
  Lines 522 and 523. The counts are numpy int64 values (\<open>.sum()\<close> of a boolean
  Series); \<open>adj\<close> returns the count itself or the Python float \<open>0.5\<close>.
\<close>

definition adj :: "nat \<Rightarrow> pynum" where
  "adj x = (if x > 0 then Int64 (int x) else PyFloat (1 / 2))"

text \<open>The value of a number as a float64: an int64 is converted, rounding.\<close>

fun to_float :: "pynum \<Rightarrow> float64" where
  "to_float (Int64 i) = Some (fl (of_int i))"
| "to_float (NpFloat x) = x"
| "to_float (PyFloat q) = Some q"

text \<open>An int64 result wraps around modulo \<open>2 ^ 64\<close>.\<close>

definition wrap64 :: "int \<Rightarrow> int" where
  "wrap64 i = (i + 2 ^ 63) mod 2 ^ 64 - 2 ^ 63"

text \<open>
  \<open>x * y\<close>: two int64 give an int64, two Python floats a Python float, any other pair
  a numpy float64 of the two values as float64.
\<close>

fun py_mul :: "pynum \<Rightarrow> pynum \<Rightarrow> pynum" where
  "py_mul (Int64 i) (Int64 j) = Int64 (wrap64 (i * j))"
| "py_mul (PyFloat p) (PyFloat q) = PyFloat (fl (p * q))"
| "py_mul x y =
     NpFloat (case (to_float x, to_float y) of
                (Some p, Some q) \<Rightarrow> Some (fl (p * q))
              | _ \<Rightarrow> None)"

text \<open>
  \<open>x / y\<close>: two Python floats give a Python float, and Python raises
  \<open>ZeroDivisionError\<close> on a zero divisor. Any other pair gives a numpy float64 of the
  two values as float64; on a zero divisor numpy warns and returns an infinity or NaN,
  which is \<open>None\<close> here (not a finite number).
\<close>

fun true_div :: "pynum \<Rightarrow> pynum \<Rightarrow> py_error + pynum" where
  "true_div (PyFloat p) (PyFloat q) =
     (if q = 0 then Inl ZeroDivisionError else Inr (PyFloat (fl (p / q))))"
| "true_div x y =
     Inr (NpFloat (case (to_float x, to_float y) of
                     (Some p, Some q) \<Rightarrow> if q = 0 then None else Some (fl (p / q))
                   | _ \<Rightarrow> None))"

text \<open>
  The section shows the rounded odds ratio (\<open>st.metric\<close>) and the table of the raw
  counts (\<open>st.table(cont_df)\<close>).
\<close>

definition odds_ratio_section ::
  "dataframe \<Rightarrow> py_error + (float64 \<times> contingency) display" where
  "odds_ratio_section df =
     (if length df > 0
      then (let t = contingency_counts df;
                a_adj = adj (cell_a t); b_adj = adj (cell_b t);
                c_adj = adj (cell_c t); d_adj = adj (cell_d t)
            in case true_div (py_mul a_adj d_adj) (py_mul b_adj c_adj) of
                 Inl e \<Rightarrow> Inl e
               | Inr odds_ratio \<Rightarrow> Inr (Shown (py_round odds_ratio 2, t)))
      else Inr (Info ''Not enough data for odds ratio calculation under current filters.''))"

section \<open>Distribution binner\<close>

text \<open>
  \<open>pd.cut(x, bins, labels)\<close> with its defaults \<open>right=True\<close> and
  \<open>include_lowest=False\<close>, for a list of bin edges. pandas computes
  \<open>ids = bins.searchsorted(x, side="left")\<close>, the number of edges below \<open>x\<close>, and
  gives no category (NaN) to a value with \<open>ids = 0\<close> or \<open>ids = len(bins)\<close> and to
  NaN; any other value gets category \<open>ids - 1\<close>.
\<close>

definition searchsorted_left :: "'a::linorder list \<Rightarrow> 'a \<Rightarrow> nat" where
  "searchsorted_left bins x = length (takeWhile (\<lambda>e. e < x) bins)"

definition cut_code :: "'a::linorder list \<Rightarrow> 'a \<Rightarrow> nat option" where
  "cut_code bins x =
     (let ids = searchsorted_left bins x
      in if ids = length bins \<or> ids = 0 then None else Some (ids - 1))"

definition cut_float :: "rat list \<Rightarrow> float64 \<Rightarrow> nat option" where
  "cut_float bins x = (case x of None \<Rightarrow> None | Some v \<Rightarrow> cut_code bins v)"

text \<open>
  \<open>value_counts().sort_index()\<close> of the categorical column: one row per category, in
  category order, with the number of values of that category; values without a category
  are not counted.
\<close>

definition value_counts_sorted :: "string list \<Rightarrow> nat option list \<Rightarrow> (string \<times> nat) list" where
  "value_counts_sorted labels codes =
     map (\<lambda>i. (labels ! i, length (filter (\<lambda>c. c = Some i) codes))) [0..<length labels]"

text \<open>
  The bins and labels of lines 468 to 472 and 490 to 494. The source's labels have an
  en dash where these have a hyphen.
\<close>

definition los_edges :: "int list" where
  "los_edges = [0, 2, 4, 6, 8, 10, 20]"

definition los_labels :: "string list" where
  "los_labels = [''1-2'', ''3-4'', ''5-6'', ''7-8'', ''9-10'', ''10+'']"

definition poly_edges :: "rat list" where
  "poly_edges = [0, 5, 10, 15, 20, 30, 50]"

definition poly_labels :: "string list" where
  "poly_labels = [''0-4'', ''5-9'', ''10-14'', ''15-19'', ''20-29'', ''30+'']"

text \<open>The LOS tab (lines 466 to 486) and the polypharmacy tab (lines 488 to 508).\<close>

definition los_tab :: "dataframe \<Rightarrow> (string \<times> nat) list display" where
  "los_tab df =
     (if length df > 0
      then Shown (value_counts_sorted los_labels
                    (map (cut_code los_edges) (map time_in_hospital df)))
      else Info ''No data available for current filters.'')"

definition poly_tab :: "dataframe \<Rightarrow> (string \<times> nat) list display" where
  "poly_tab rdf =
     (if length rdf > 0
      then Shown (value_counts_sorted poly_labels
                    (map (cut_float poly_edges) (map num_medications rdf)))
      else Info ''No readmitted patients in current filters.'')"

text \<open>
  The binning as the specification words it: bin \<open>i\<close> of a list of edges holds the
  values of the interval closed on the left and open on the right.
\<close>

definition in_half_open_bin :: "'a::linorder list \<Rightarrow> nat \<Rightarrow> 'a \<Rightarrow> bool" where
  "in_half_open_bin bins i x = (Suc i < length bins \<and> bins ! i \<le> x \<and> x < bins ! Suc i)"

text \<open>
  The two flags of lines 514 and 515 read on one row: the medication count is a number
  and at least 10; the row is a readmission within 30 days.
\<close>

definition is_polypharmacy :: "encounter \<Rightarrow> bool" where
  "is_polypharmacy r = (case num_medications r of None \<Rightarrow> False | Some y \<Rightarrow> 10 \<le> y)"

definition is_readmit30 :: "encounter \<Rightarrow> bool" where
  "is_readmit30 r = (readmitted r = ''<30'')"

text \<open>The number that \<open>adj\<close> returns for a count: the count, or one half for zero.\<close>

definition adj_value :: "nat \<Rightarrow> rat" where
  "adj_value x = (if x = 0 then 1 / 2 else of_nat x)"
section \<open>Facts about the pandas operations\<close>

lemma boolean_index_map: "boolean_index xs (map P xs) = filter P xs"
  by (induction xs) (simp_all add: boolean_index_def)

lemma series_and_map:
  "series_and (map P xs) (map Q xs) = map (\<lambda>x. P x \<and> Q x) xs"
  by (induction xs) (simp_all add: series_and_def)

lemma isin_map: "isin (map f xs) vals = map (\<lambda>x. f x \<in> set vals) xs"
  by (simp add: isin_def)

lemma series_eq_map: "series_eq (map f xs) v = map (\<lambda>x. f x = v) xs"
  by (simp add: series_eq_def)

lemma series_not_map: "series_not (map P xs) = map (\<lambda>x. \<not> P x) xs"
  by (simp add: series_not_def)

lemma series_sum_map: "series_sum (map P xs) = length (filter P xs)"
  by (induction xs) (simp_all add: series_sum_def)

lemma get_filtered_data_filter:
  "get_filtered_data df ages genders adms =
     filter (\<lambda>r. age_group r \<in> set ages \<and> gender r \<in> set genders
                 \<and> admission_type_id r \<in> set adms) df"
  by (simp add: get_filtered_data_def isin_map series_and_map boolean_index_map)

lemma length_filter_mono:
  "(\<And>x. x \<in> set xs \<Longrightarrow> P x \<Longrightarrow> Q x) \<Longrightarrow> length (filter P xs) \<le> length (filter Q xs)"
  by (induction xs) auto

lemma series_ge_map:
  "series_ge (map f xs) k = map (\<lambda>x. case f x of None \<Rightarrow> False | Some y \<Rightarrow> k \<le> y) xs"
  by (simp add: series_ge_def)

section \<open>Facts about double precision\<close>

text \<open>
  The nearest integer is at most one half away. The float64 nearest to \<open>x\<close> is within
  the relative error \<open>2 ^ -53\<close> of \<open>x\<close>, and a number \<open>M * 2 ^ E\<close> with
  \<open>|M| < 2 ^ 53\<close> is a float64 itself. numpy's rounding to \<open>n\<close> decimals returns the
  float64 nearest to a number \<open>m / 10 ^ n\<close> that is within half a unit of the last
  decimal, plus the rounding error of the product, of its argument.
\<close>

lemma round_half_even_error: "\<bar>of_int (round_half_even x) - x\<bar> \<le> 1 / 2"
  unfolding round_half_even_def Let_def
  by (auto simp add: abs_if not_less) linarith+

lemma round_half_even_of_int: "round_half_even (of_int k) = k"
  by (simp add: round_half_even_def)

lemma bitlen_bounds_rat:
  assumes "0 < n"
  shows "2 powi (bitlen n - 1) \<le> (of_int n :: rat)" and "(of_int n :: rat) < 2 powi bitlen n"
proof -
  have b1: "1 \<le> bitlen n" using assms by (simp add: bitlen_alt_def)
  have lo: "2 ^ nat (bitlen n - 1) \<le> n" and hi: "n < 2 ^ nat (bitlen n)"
    using bitlen_bounds [OF assms] by simp_all
  have "(2::rat) powi (bitlen n - 1) = 2 ^ nat (bitlen n - 1)"
    using b1 by (simp add: power_int_def)
  also have "\<dots> = of_int (2 ^ nat (bitlen n - 1))" by simp
  also have "\<dots> \<le> of_int n" using lo by (simp only: of_int_le_iff)
  finally show "2 powi (bitlen n - 1) \<le> (of_int n :: rat)" .
  have "(of_int n :: rat) < of_int (2 ^ nat (bitlen n))" using hi by (simp only: of_int_less_iff)
  also have "\<dots> = 2 ^ nat (bitlen n)" by simp
  also have "\<dots> = (2::rat) powi bitlen n" using b1 by (simp add: power_int_def)
  finally show "(of_int n :: rat) < 2 powi bitlen n" .
qed

lemma float_exponent_bounds:
  assumes "x \<noteq> 0"
  shows "2 powi float_exponent x \<le> \<bar>x\<bar>" and "\<bar>x\<bar> < 2 powi (float_exponent x + 1)"
proof -
  obtain p q where pq: "quotient_of \<bar>x\<bar> = (p, q)" by (cases "quotient_of \<bar>x\<bar>")
  have q: "0 < q" using pq by (rule quotient_of_denom_pos)
  have x: "\<bar>x\<bar> = of_int p / of_int q" using pq by (rule quotient_of_div)
  have "0 < \<bar>x\<bar>" using assms by simp
  then have "0 < (of_int p :: rat) / of_int q" using x by simp
  then have p: "0 < p" using q by (simp add: zero_less_divide_iff)
  let ?e = "bitlen p - bitlen q"
  have qpos: "(0::rat) < of_int q" using q by simp
  have up: "\<bar>x\<bar> < 2 powi (?e + 1)"
  proof -
    have "of_int p < (2::rat) powi bitlen p" using p by (rule bitlen_bounds_rat)
    also have "\<dots> = 2 powi (?e + 1) * 2 powi (bitlen q - 1)"
      by (simp flip: power_int_add)
    also have "\<dots> \<le> 2 powi (?e + 1) * of_int q"
      using bitlen_bounds_rat(1) [OF q] by (intro mult_left_mono) simp_all
    finally show ?thesis using qpos by (simp add: x pos_divide_less_eq)
  qed
  have lo: "2 powi (?e - 1) \<le> \<bar>x\<bar>"
  proof -
    have "2 powi (?e - 1) * (of_int q :: rat) \<le> 2 powi (?e - 1) * 2 powi bitlen q"
      using bitlen_bounds_rat(2) [OF q] by (intro mult_left_mono) simp_all
    also have "\<dots> = 2 powi (bitlen p - 1)" by (simp flip: power_int_add)
    also have "\<dots> \<le> of_int p" using p by (rule bitlen_bounds_rat)
    finally show ?thesis using qpos by (simp add: x pos_le_divide_eq)
  qed
  show "2 powi float_exponent x \<le> \<bar>x\<bar>"
    using lo by (simp add: float_exponent_def pq Let_def)
  show "\<bar>x\<bar> < 2 powi (float_exponent x + 1)"
    using up by (auto simp add: float_exponent_def pq Let_def not_le)
qed

lemma fl_0: "fl 0 = 0"
  by (simp add: fl_def)

lemma fl_error: "\<bar>fl x - x\<bar> \<le> \<bar>x\<bar> / 2 ^ 53"
proof (cases "x = 0")
  case True
  then show ?thesis by (simp add: fl_def)
next
  case False
  define e where "e = float_exponent x - 52"
  define s where "s = x * 2 powi (- e)"
  have pe: "(0::rat) < 2 powi e" by simp
  have xs: "x = s * 2 powi e"
    by (simp add: s_def power_int_minus field_simps)
  have f: "fl x = of_int (round_half_even s) * 2 powi e"
    using False by (simp add: fl_def Let_def e_def s_def)
  have "fl x - x = (of_int (round_half_even s) - s) * 2 powi e"
    by (simp add: f algebra_simps flip: xs)
  then have "\<bar>fl x - x\<bar> = \<bar>of_int (round_half_even s) - s\<bar> * 2 powi e"
    using pe by (simp add: abs_mult)
  also have "\<dots> \<le> (1 / 2) * 2 powi e"
    using round_half_even_error [of s] pe by (intro mult_right_mono) simp_all
  finally have a: "\<bar>fl x - x\<bar> \<le> 2 powi e / 2" by simp
  have "(2::rat) powi float_exponent x = 2 powi (e + 52)" by (simp add: e_def)
  also have "\<dots> = 2 powi e * 2 powi 52" by (rule power_int_add) simp
  finally have "(2::rat) powi e * 2 ^ 52 = 2 powi float_exponent x" by simp
  also have "\<dots> \<le> \<bar>x\<bar>" using False by (rule float_exponent_bounds)
  finally have "(2::rat) powi e * 2 ^ 52 \<le> \<bar>x\<bar>" .
  then have "(2::rat) powi e / 2 \<le> \<bar>x\<bar> / 2 ^ 53" by (simp add: field_simps)
  then show ?thesis using a by simp
qed

lemma fl_exact:
  assumes "\<bar>M\<bar> < 2 ^ 53"
  shows "fl (of_int M * 2 powi E) = of_int M * 2 powi E"
proof (cases "M = 0")
  case True
  then show ?thesis by (simp add: fl_def)
next
  case False
  define x :: rat where "x = of_int M * 2 powi E"
  have x0: "x \<noteq> 0" using False by (simp add: x_def)
  define e where "e = float_exponent x - 52"
  have "2 powi float_exponent x \<le> \<bar>x\<bar>" using x0 by (rule float_exponent_bounds)
  also have "\<bar>x\<bar> = of_int \<bar>M\<bar> * 2 powi E" by (simp add: x_def abs_mult)
  also have "\<dots> < of_int (2 ^ 53) * 2 powi E"
    using assms by (intro mult_strict_right_mono) (simp_all only: of_int_less_iff zero_less_power_int zero_less_numeral)
  also have "\<dots> = 2 powi (53 + E)" by (simp add: power_int_add)
  finally have lt: "(2::rat) powi float_exponent x < 2 powi (53 + E)" .
  have "float_exponent x < 53 + E"
  proof (rule ccontr)
    assume "\<not> float_exponent x < 53 + E"
    then have "(2::rat) powi (53 + E) \<le> 2 powi float_exponent x"
      by (intro power_int_increasing) simp_all
    then show False using lt by simp
  qed
  then have k: "0 \<le> E - e" by (simp add: e_def)
  have "x * 2 powi (- e) = of_int M * 2 powi (E - e)"
    by (simp add: x_def power_int_diff power_int_minus field_simps)
  also have "\<dots> = of_int M * 2 ^ nat (E - e)" using k by (simp add: power_int_def)
  also have "\<dots> = of_int (M * 2 ^ nat (E - e))" by simp
  finally have s: "x * 2 powi (- e) = of_int (M * 2 ^ nat (E - e))" .
  have "fl x = of_int (round_half_even (x * 2 powi (- e))) * 2 powi e"
    using x0 by (simp add: fl_def Let_def e_def)
  also have "\<dots> = of_int (M * 2 ^ nat (E - e)) * 2 powi e"
    by (simp only: s round_half_even_of_int)
  also have "\<dots> = x * 2 powi (- e) * 2 powi e" by (simp only: s)
  also have "\<dots> = x" by (simp add: power_int_minus)
  finally show ?thesis by (simp add: x_def)
qed

lemma fl_of_int: "\<bar>M\<bar> < 2 ^ 53 \<Longrightarrow> fl (of_int M) = of_int M"
  using fl_exact [of M 0] by simp

lemma fl_of_nat: "n < 2 ^ 53 \<Longrightarrow> fl (of_nat n) = of_nat n"
  using fl_of_int [of "int n"] by simp

lemma fl_abs_le: "\<bar>fl x\<bar> \<le> 2 * \<bar>x\<bar>"
proof -
  have "\<bar>x\<bar> / 2 ^ 53 \<le> \<bar>x\<bar>" by (simp add: field_simps)
  then show ?thesis using fl_error [of x] by linarith
qed

lemma np_round_near:
  "\<exists>m::int. np_round q n = fl (of_int m / 10 ^ n)
     \<and> \<bar>of_int m / 10 ^ n - q\<bar> \<le> 1 / (2 * 10 ^ n) + \<bar>q\<bar> / 2 ^ 53"
proof -
  define y where "y = fl (q * 10 ^ n)"
  define m where "m = round_half_even y"
  have p: "(0::rat) < 10 ^ n" by simp
  have a: "\<bar>of_int m - y\<bar> \<le> 1 / 2" unfolding m_def by (rule round_half_even_error)
  have "\<bar>y - q * 10 ^ n\<bar> \<le> \<bar>q * 10 ^ n\<bar> / 2 ^ 53" unfolding y_def by (rule fl_error)
  then have b: "\<bar>y - q * 10 ^ n\<bar> \<le> \<bar>q\<bar> * 10 ^ n / 2 ^ 53" by (simp add: abs_mult)
  have "\<bar>of_int m - q * 10 ^ n\<bar> \<le> 1 / 2 + \<bar>q\<bar> * 10 ^ n / 2 ^ 53"
    using a b by linarith
  then have "\<bar>of_int m - q * 10 ^ n\<bar> / 10 ^ n \<le> (1 / 2 + \<bar>q\<bar> * 10 ^ n / 2 ^ 53) / 10 ^ n"
    using p by (simp add: divide_right_mono)
  moreover have "\<bar>of_int m - q * 10 ^ n\<bar> / 10 ^ n = \<bar>of_int m / 10 ^ n - q\<bar>"
  proof -
    have "of_int m / 10 ^ n - q = (of_int m - q * 10 ^ n) / 10 ^ n"
      using p by (simp add: field_simps)
    then show ?thesis using p by (simp add: abs_divide)
  qed
  moreover have "(1 / 2 + \<bar>q\<bar> * 10 ^ n / 2 ^ 53) / 10 ^ n = 1 / (2 * 10 ^ n) + \<bar>q\<bar> / 2 ^ 53"
    using p by (simp add: field_simps)
  ultimately have "\<bar>of_int m / 10 ^ n - q\<bar> \<le> 1 / (2 * 10 ^ n) + \<bar>q\<bar> / 2 ^ 53" by simp
  moreover have "np_round q n = fl (of_int m / 10 ^ n)"
    by (simp add: np_round_def m_def y_def)
  ultimately show ?thesis by blast
qed

lemma round_ndigits_0: "round_ndigits 0 n = 0"
  by (simp add: round_ndigits_def round_half_even_def)

lemma py_round_zero: "py_round (PyFloat 0) n = Some 0"
  by (simp add: round_ndigits_0 fl_0)

lemma float_sum_from_exact:
  assumes "0 \<le> a" and "\<forall>v\<in>set xs. 0 \<le> v" and "a + sum_list xs < 2 ^ 53"
  shows "float_sum_from (of_int a) xs = of_int (a + sum_list xs)"
  using assms
proof (induction xs arbitrary: a)
  case Nil
  then show ?case by simp
next
  case (Cons v vs)
  have v0: "0 \<le> v" and vs0: "\<forall>w\<in>set vs. 0 \<le> w" using Cons.prems(2) by simp_all
  have s0: "0 \<le> sum_list vs" using vs0 by (simp add: sum_list_nonneg)
  have "\<bar>v\<bar> < 2 ^ 53" using v0 s0 Cons.prems(1,3) by simp
  then have fv: "fl (of_int v) = of_int v" by (rule fl_of_int)
  have "\<bar>a + v\<bar> < 2 ^ 53" using v0 s0 Cons.prems(1,3) by simp
  then have "fl (of_int (a + v)) = of_int (a + v)" by (rule fl_of_int)
  then have step: "fl (of_int a + fl (of_int v)) = of_int (a + v)" by (simp add: fv)
  have "float_sum_from (of_int (a + v)) vs = of_int (a + v + sum_list vs)"
    using v0 vs0 Cons.prems(1,3) by (intro Cons.IH) simp_all
  then show ?case by (simp add: step add.assoc)
qed

lemma float_sum_exact:
  assumes "\<forall>v\<in>set xs. 0 \<le> v" and "sum_list xs < 2 ^ 53"
  shows "float_sum xs = of_int (sum_list xs)"
  using float_sum_from_exact [of 0 xs] assms by (simp add: float_sum_def)

lemma mean_int_exact:
  assumes "xs \<noteq> []" and "\<forall>v\<in>set xs. 0 \<le> v" and "sum_list xs < 2 ^ 53"
    and "length xs < 2 ^ 53"
  shows "mean_int xs = Some (fl (of_int (sum_list xs) / of_nat (length xs)))"
  using assms by (simp add: mean_int_def float_sum_exact fl_of_nat)

lemma sum_list_bools: "sum_list (map (\<lambda>b. if b then 1 else 0) m) = int (series_sum m)"
  by (induction m) (simp_all add: series_sum_def)

lemma int_less_power2: "(n::nat) < 2 ^ k \<Longrightarrow> int n < 2 ^ k"
proof -
  assume "n < 2 ^ k"
  then have "int n < int (2 ^ k)" by (simp only: of_nat_less_iff)
  then show ?thesis by simp
qed

lemma series_sum_le: "series_sum m \<le> length m"
  by (simp add: series_sum_def)

lemma mean_bool_exact:
  assumes "m \<noteq> []" and "length m < 2 ^ 53"
  shows "mean_bool m = Some (fl (of_nat (series_sum m) / of_nat (length m)))"
proof -
  let ?xs = "map (\<lambda>b. if b then 1 else (0::int)) m"
  have "int (series_sum m) \<le> int (length m)" using series_sum_le [of m] by simp
  also have "\<dots> < 2 ^ 53" using assms(2) by (rule int_less_power2)
  finally have "sum_list ?xs < 2 ^ 53" by (simp add: sum_list_bools)
  moreover have "\<forall>v\<in>set ?xs. 0 \<le> v" by auto
  ultimately have "mean_int ?xs = Some (fl (of_int (sum_list ?xs) / of_nat (length ?xs)))"
    using assms by (intro mean_int_exact) simp_all
  then show ?thesis by (simp add: mean_bool_def sum_list_bools)
qed

lemma percent_near:
  assumes "k \<le> n" and "0 < n"
  shows "\<exists>m::int. np_round (fl (fl (of_nat k / of_nat n) * 100)) 1 = fl (of_int m / 10)
           \<and> \<bar>(of_int m :: rat) / 10 - of_nat k / of_nat n * 100\<bar> \<le> 1 / 20 + 1 / 2 ^ 44
           \<and> \<bar>fl (of_int m / 10) - of_nat k / of_nat n * 100\<bar> \<le> 1 / 20 + 1 / 2 ^ 43"
proof -
  define r :: rat where "r = of_nat k / of_nat n"
  define a where "a = fl r"
  define b where "b = fl (a * 100)"
  define \<epsilon> :: rat where "\<epsilon> = 1 / 2 ^ 53"
  have e0: "0 \<le> \<epsilon>" and e1: "\<epsilon> \<le> 1" and e300: "300 * \<epsilon> \<le> 1"
    and e44: "401 * \<epsilon> \<le> 1 / 2 ^ 44"
    by (simp_all add: \<epsilon>_def)
  have r0: "0 \<le> r" by (simp add: r_def)
  have r1: "r \<le> 1" using assms by (simp add: r_def)
  have "\<bar>a - r\<bar> \<le> \<bar>r\<bar> / 2 ^ 53" unfolding a_def by (rule fl_error)
  moreover have "\<bar>r\<bar> / 2 ^ 53 \<le> 1 / 2 ^ 53" using r0 r1 by (intro divide_right_mono) simp_all
  ultimately have ea: "\<bar>a - r\<bar> \<le> \<epsilon>" unfolding \<epsilon>_def by linarith
  have a2: "\<bar>a\<bar> \<le> 2" using ea r0 r1 e1 by linarith
  have "\<bar>a * 100\<bar> \<le> 200" using a2 by (simp add: abs_mult)
  then have "\<bar>a * 100\<bar> / 2 ^ 53 \<le> 200 / 2 ^ 53" by (intro divide_right_mono) simp_all
  moreover have "\<bar>b - a * 100\<bar> \<le> \<bar>a * 100\<bar> / 2 ^ 53" unfolding b_def by (rule fl_error)
  ultimately have eb: "\<bar>b - a * 100\<bar> \<le> 200 * \<epsilon>" unfolding \<epsilon>_def by linarith
  have br: "\<bar>b - r * 100\<bar> \<le> 300 * \<epsilon>" using ea eb by linarith
  have b101: "\<bar>b\<bar> \<le> 101" using br r0 r1 e300 by linarith
  obtain m :: int where m: "np_round b 1 = fl (of_int m / 10 ^ 1)"
    and em: "\<bar>of_int m / 10 ^ 1 - b\<bar> \<le> 1 / (2 * 10 ^ 1) + \<bar>b\<bar> / 2 ^ 53"
    using np_round_near [of b 1] by blast
  have "\<bar>b\<bar> / 2 ^ 53 \<le> 101 / 2 ^ 53" using b101 by (intro divide_right_mono) simp_all
  then have "\<bar>b\<bar> / 2 ^ 53 \<le> 101 * \<epsilon>" unfolding \<epsilon>_def by linarith
  moreover have "\<bar>of_int m / 10 - b\<bar> \<le> 1 / 20 + \<bar>b\<bar> / 2 ^ 53" using em by simp
  ultimately have near: "\<bar>of_int m / 10 - r * 100\<bar> \<le> 1 / 20 + 1 / 2 ^ 44"
    using br e44 by linarith
  have e43: "1 / 2 ^ 44 + 102 * \<epsilon> \<le> 1 / 2 ^ 43" and e44': "(1::rat) / 2 ^ 44 \<le> 1"
    by (simp_all add: \<epsilon>_def)
  have "\<bar>(of_int m :: rat) / 10\<bar> \<le> 102" using near r0 r1 e44' by linarith
  then have "\<bar>(of_int m :: rat) / 10\<bar> / 2 ^ 53 \<le> 102 / 2 ^ 53"
    by (intro divide_right_mono) simp_all
  moreover have "\<bar>fl (of_int m / 10) - of_int m / 10\<bar> \<le> \<bar>(of_int m :: rat) / 10\<bar> / 2 ^ 53"
    by (rule fl_error)
  ultimately have "\<bar>fl (of_int m / 10) - of_int m / 10\<bar> \<le> 102 * \<epsilon>"
    unfolding \<epsilon>_def by linarith
  then have "\<bar>fl (of_int m / 10) - r * 100\<bar> \<le> 1 / 20 + 1 / 2 ^ 43"
    using near e43 by linarith
  moreover have "np_round b 1 = fl (of_int m / 10)" using m by simp
  ultimately show ?thesis using near unfolding b_def a_def r_def by blast
qed

lemma ratio_near:
  assumes "0 \<le> \<mu>"
  shows "\<exists>m::int. np_round (fl \<mu>) n = fl (of_int m / 10 ^ n)
           \<and> \<bar>of_int m / 10 ^ n - \<mu>\<bar> \<le> 1 / (2 * 10 ^ n) + \<mu> / 2 ^ 51
           \<and> \<bar>fl (of_int m / 10 ^ n) - \<mu>\<bar>
                 \<le> 1 / (2 * 10 ^ n) + 1 / 2 ^ 53 + \<mu> / 2 ^ 50"
proof -
  define x where "x = fl \<mu>"
  have "\<bar>x - \<mu>\<bar> \<le> \<bar>\<mu>\<bar> / 2 ^ 53" unfolding x_def by (rule fl_error)
  then have ex: "\<bar>x - \<mu>\<bar> \<le> \<mu> / 2 ^ 53" using assms by simp
  have "\<bar>x\<bar> \<le> 2 * \<bar>\<mu>\<bar>" unfolding x_def by (rule fl_abs_le)
  then have x2: "\<bar>x\<bar> \<le> 2 * \<mu>" using assms by simp
  obtain m :: int where m: "np_round x n = fl (of_int m / 10 ^ n)"
    and em: "\<bar>of_int m / 10 ^ n - x\<bar> \<le> 1 / (2 * 10 ^ n) + \<bar>x\<bar> / 2 ^ 53"
    using np_round_near [of x n] by blast
  have "\<bar>x\<bar> / 2 ^ 53 \<le> 2 * \<mu> / 2 ^ 53" using x2 by (simp add: divide_right_mono)
  then have "\<bar>of_int m / 10 ^ n - \<mu>\<bar> \<le> 1 / (2 * 10 ^ n) + 3 * \<mu> / 2 ^ 53"
    using em ex by linarith
  moreover have "3 * \<mu> / 2 ^ 53 \<le> \<mu> / 2 ^ 51" using assms by simp
  ultimately have near: "\<bar>of_int m / 10 ^ n - \<mu>\<bar> \<le> 1 / (2 * 10 ^ n) + \<mu> / 2 ^ 51"
    by linarith
  define u where "u = \<mu> / 2 ^ 53"
  have u0: "0 \<le> u" using assms by (simp add: u_def)
  have u51: "\<mu> / 2 ^ 51 = 4 * u" and u50: "\<mu> / 2 ^ 50 = 8 * u"
    and mu: "\<mu> = 2 ^ 53 * u"
    by (simp_all add: u_def)
  have "(1::rat) \<le> 10 ^ n" by (rule one_le_power) simp
  then have "(1::rat) \<le> 2 * 10 ^ n" by linarith
  then have h1: "(1::rat) / (2 * 10 ^ n) \<le> 1" by (simp add: field_simps)
  have "\<mu> / 2 ^ 51 \<le> \<mu>" using assms by (simp add: field_simps)
  then have "\<bar>(of_int m :: rat) / 10 ^ n\<bar> \<le> 2 * \<mu> + 1" using near h1 assms by linarith
  then have "\<bar>(of_int m :: rat) / 10 ^ n\<bar> / 2 ^ 53 \<le> (2 * \<mu> + 1) / 2 ^ 53"
    by (intro divide_right_mono) simp_all
  moreover have "(2 * \<mu> + 1) / 2 ^ 53 = 2 * u + 1 / 2 ^ 53"
    by (simp add: u_def field_simps)
  moreover have "\<bar>fl (of_int m / 10 ^ n) - of_int m / 10 ^ n\<bar>
                   \<le> \<bar>(of_int m :: rat) / 10 ^ n\<bar> / 2 ^ 53"
    by (rule fl_error)
  ultimately have "\<bar>fl (of_int m / 10 ^ n) - of_int m / 10 ^ n\<bar> \<le> 2 * u + 1 / 2 ^ 53"
    by linarith
  then have "\<bar>fl (of_int m / 10 ^ n) - \<mu>\<bar> \<le> 1 / (2 * 10 ^ n) + 1 / 2 ^ 53 + \<mu> / 2 ^ 50"
    using near u0 unfolding u51 u50 by linarith
  then show ?thesis using m near unfolding x_def by blast
qed

section \<open>Facts about the KPI aggregator\<close>

lemma readmitted_df_filter:
  "readmitted_df (compute_kpis df) =
     filter (\<lambda>r. readmitted r = ''<30'' \<or> readmitted r = ''>30'') df"
  by (simp add: compute_kpis_def Let_def isin_map boolean_index_map split: prod.splits)

lemma readmission_rate_nonempty:
  assumes "df \<noteq> []" and "length df < 2 ^ 53"
  shows "readmission_rate (compute_kpis df) =
     Some (np_round
             (fl (fl (of_nat (length (filter (\<lambda>r. readmitted r = ''<30'') df))
                        / of_nat (length df)) * 100)) 1)"
proof -
  have "mean_bool (series_eq (map readmitted df) ''<30'') =
          Some (fl (of_nat (length (filter (\<lambda>r. readmitted r = ''<30'') df))
                      / of_nat (length df)))"
    using assms mean_bool_exact [of "series_eq (map readmitted df) ''<30''"]
    by (simp add: series_eq_map series_sum_map)
  then show ?thesis
    using assms(1) by (simp add: compute_kpis_def Let_def fmul_def split: prod.splits)
qed

lemma readmission_rate_empty: "readmission_rate (compute_kpis []) = Some 0"
  by (simp add: compute_kpis_def Let_def round_ndigits_0 fl_0 split: prod.splits)


lemma polypharmacy_rate_nonempty:
  assumes "rdf = filter (\<lambda>r. readmitted r = ''<30'' \<or> readmitted r = ''>30'') df"
    and "rdf \<noteq> []" and "length rdf < 2 ^ 53"
  shows "polypharmacy_rate (compute_kpis df) =
     Some (np_round
        (fl (fl (of_nat (length (filter (\<lambda>r. case num_medications r of None \<Rightarrow> False
                                           | Some y \<Rightarrow> 10 \<le> y) rdf))
                   / of_nat (length rdf)) * 100)) 1)"
proof -
  have "mean_bool (series_ge (map num_medications rdf) 10) =
          Some (fl (of_nat (length (filter (\<lambda>r. case num_medications r of None \<Rightarrow> False
                                           | Some y \<Rightarrow> 10 \<le> y) rdf))
                      / of_nat (length rdf)))"
    using assms(2,3) mean_bool_exact [of "series_ge (map num_medications rdf) 10"]
    by (simp add: series_ge_map series_sum_map)
  then show ?thesis
    using assms(1,2)
    by (simp add: compute_kpis_def Let_def isin_map boolean_index_map fmul_def
          split: prod.splits)
qed

lemma kpis_readmitted_empty:
  "readmitted_df (compute_kpis df) = [] \<Longrightarrow>
   avg_los_readmitted (compute_kpis df) = Some 0
   \<and> polypharmacy_rate (compute_kpis df) = Some 0"
  by (simp add: compute_kpis_def Let_def round_ndigits_0 fl_0 split: prod.splits)

lemma kpis_empty:
  "readmission_rate (compute_kpis []) = Some 0
   \<and> avg_los_readmitted (compute_kpis []) = Some 0
   \<and> polypharmacy_rate (compute_kpis []) = Some 0
   \<and> readmitted_df (compute_kpis []) = []"
  using kpis_readmitted_empty [of "[]"]
  by (simp add: readmission_rate_empty readmitted_df_filter)

text \<open>Values of the float64 computation at particular counts, by evaluation.\<close>

lemma percent_3_of_10: "np_round (fl (fl (3 / 10) * 100)) (Suc 0) = 30"
  by code_simp

lemma percent_1_of_80: "np_round (fl (fl (1 / 80) * 100)) (Suc 0) = fl (6 / 5)"
  by code_simp

lemma percent_23_of_80: "np_round (fl (fl (23 / 80) * 100)) (Suc 0) = fl (287 / 10)"
  by code_simp

lemma percent_49_of_80: "np_round (fl (fl (49 / 80) * 100)) (Suc 0) = fl (613 / 10)"
  by code_simp

lemma percent_1_of_2: "np_round (fl (fl (1 / 2) * 100)) (Suc 0) = 50"
  by code_simp



section \<open>Facts about the association statistic\<close>

lemma contingency_counts_filter:
  "contingency_counts df =
     \<lparr>cell_a = length (filter (\<lambda>r. is_polypharmacy r \<and> is_readmit30 r) df),
      cell_b = length (filter (\<lambda>r. is_polypharmacy r \<and> \<not> is_readmit30 r) df),
      cell_c = length (filter (\<lambda>r. \<not> is_polypharmacy r \<and> is_readmit30 r) df),
      cell_d = length (filter (\<lambda>r. \<not> is_polypharmacy r \<and> \<not> is_readmit30 r) df)\<rparr>"
  by (simp add: contingency_counts_def Let_def series_ge_map series_eq_map series_not_map
        series_and_map series_sum_map is_polypharmacy_def is_readmit30_def)

lemma cells_partition:
  "length (filter (\<lambda>r. P r \<and> Q r) xs) + length (filter (\<lambda>r. P r \<and> \<not> Q r) xs)
   + length (filter (\<lambda>r. \<not> P r \<and> Q r) xs) + length (filter (\<lambda>r. \<not> P r \<and> \<not> Q r) xs)
   = length xs"
  by (induction xs) auto

lemma counts_total:
  "cell_a (contingency_counts df) + cell_b (contingency_counts df)
   + cell_c (contingency_counts df) + cell_d (contingency_counts df) = length df"
  by (simp add: contingency_counts_filter cells_partition)

lemma counts_missing_row:
  assumes "num_medications r = None"
  shows "contingency_counts (xs @ r # ys) =
     (let t = contingency_counts (xs @ ys)
      in if readmitted r = ''<30'' then t\<lparr>cell_c := cell_c t + 1\<rparr>
         else t\<lparr>cell_d := cell_d t + 1\<rparr>)"
  using assms
  by (simp add: contingency_counts_filter is_polypharmacy_def is_readmit30_def Let_def)

lemma adj_value_pos: "0 < adj_value x"
  by (simp add: adj_value_def)

lemma wrap64_id: "0 \<le> i \<Longrightarrow> i < 2 ^ 63 \<Longrightarrow> wrap64 i = i"
  by (simp add: wrap64_def)

lemma fl_half: "n < 2 ^ 53 \<Longrightarrow> fl (of_nat n / 2) = of_nat n / 2"
proof -
  assume "n < 2 ^ 53"
  then have "\<bar>int n\<bar> < 2 ^ 53" using int_less_power2 [of n 53] by simp
  then have "fl (of_int (int n) * 2 powi (- 1)) = of_int (int n) * 2 powi (- 1)"
    by (rule fl_exact)
  then show ?thesis by (simp add: field_simps)
qed

lemma fl_quarter: "fl (1 / 4) = 1 / 4"
  using fl_exact [of 1 "- 2"] by (simp add: power_int_minus)

lemma count_product_bound:
  assumes "x < 2 ^ 26" and "y < 2 ^ 26"
  shows "int x * int y < 2 ^ 52" and "0 \<le> int x * int y"
proof -
  have "int x < 2 ^ 26" and "int y < 2 ^ 26"
    using assms by (simp_all add: int_less_power2)
  then have "int x * int y < 2 ^ 26 * 2 ^ 26"
    by (intro mult_strict_mono) simp_all
  then show "int x * int y < 2 ^ 52" by simp
  show "0 \<le> int x * int y" by simp
qed

lemma py_mul_adj:
  assumes "x < 2 ^ 26" and "y < 2 ^ 26"
  shows "py_mul (adj x) (adj y) =
     (if x = 0 \<and> y = 0 then PyFloat (1 / 4)
      else if x = 0 \<or> y = 0 then NpFloat (Some (adj_value x * adj_value y))
      else Int64 (int x * int y))"
proof -
  have bx: "x < 2 ^ 53" and "y < 2 ^ 53" using assms by simp_all
  then have fx: "fl (of_nat x) = of_nat x" and fy: "fl (of_nat y) = of_nat y"
    and hx: "fl (of_nat x / 2) = of_nat x / 2" and hy: "fl (of_nat y / 2) = of_nat y / 2"
    by (simp_all add: fl_of_nat fl_half)
  have "int x * int y < 2 ^ 63" using count_product_bound(1) [OF assms] by simp
  then have w: "wrap64 (int x * int y) = int x * int y"
    by (intro wrap64_id) simp_all
  show ?thesis
    by (simp add: adj_def adj_value_def fx fy hx hy w fl_quarter)
qed

lemma to_float_product:
  assumes "x < 2 ^ 26" and "y < 2 ^ 26"
  shows "to_float (py_mul (adj x) (adj y)) = Some (adj_value x * adj_value y)"
proof -
  have "\<bar>int x * int y\<bar> < 2 ^ 53" using count_product_bound [OF assms] by simp
  then have "fl (of_int (int x * int y)) = of_int (int x * int y)" by (rule fl_of_int)
  then show ?thesis
    using assms by (simp add: py_mul_adj adj_value_def)
qed

lemma odds_quotient:
  assumes "a < 2 ^ 26" and "b < 2 ^ 26" and "c < 2 ^ 26" and "d < 2 ^ 26"
    and "0 < a + b + c + d"
  shows "true_div (py_mul (adj a) (adj d)) (py_mul (adj b) (adj c)) =
           Inr (NpFloat (Some (fl (adj_value a * adj_value d
                                     / (adj_value b * adj_value c)))))"
proof -
  have n: "to_float (py_mul (adj a) (adj d)) = Some (adj_value a * adj_value d)"
    using assms by (intro to_float_product)
  have m: "to_float (py_mul (adj b) (adj c)) = Some (adj_value b * adj_value c)"
    using assms by (intro to_float_product)
  have nz: "adj_value b * adj_value c \<noteq> 0"
    using adj_value_pos [of b] adj_value_pos [of c] by simp
  have nall: "\<not> (a = 0 \<and> d = 0 \<and> b = 0 \<and> c = 0)" using assms(5) by auto
  show ?thesis
    using nall n m nz assms(1-4)
    by (cases "py_mul (adj a) (adj d)"; cases "py_mul (adj b) (adj c)")
       (auto simp add: py_mul_adj split: if_splits)
qed

lemma odds_ratio_section_empty:
  "odds_ratio_section [] =
     Inr (Info ''Not enough data for odds ratio calculation under current filters.'')"
  by (simp add: odds_ratio_section_def)

lemma odds_ratio_section_table:
  "odds_ratio_section df = Inr (Shown (s, t)) \<Longrightarrow> t = contingency_counts df"
  by (auto simp add: odds_ratio_section_def Let_def split: if_splits sum.splits)

lemma odds_ratio_section_nonempty:
  assumes "df \<noteq> []" and "length df < 2 ^ 26"
  shows "odds_ratio_section df =
     Inr (Shown (Some (np_round
                   (fl (adj_value (cell_a (contingency_counts df))
                          * adj_value (cell_d (contingency_counts df))
                        / (adj_value (cell_b (contingency_counts df))
                             * adj_value (cell_c (contingency_counts df))))) 2),
                 contingency_counts df))"
proof -
  let ?t = "contingency_counts df"
  have tot: "cell_a ?t + cell_b ?t + cell_c ?t + cell_d ?t = length df" by (rule counts_total)
  then have "cell_a ?t < 2 ^ 26" "cell_b ?t < 2 ^ 26" "cell_c ?t < 2 ^ 26" "cell_d ?t < 2 ^ 26"
    using assms(2) by linarith+
  moreover have "0 < cell_a ?t + cell_b ?t + cell_c ?t + cell_d ?t"
    using tot assms(1) by simp
  ultimately have "true_div (py_mul (adj (cell_a ?t)) (adj (cell_d ?t)))
                     (py_mul (adj (cell_b ?t)) (adj (cell_c ?t))) =
           Inr (NpFloat (Some (fl (adj_value (cell_a ?t) * adj_value (cell_d ?t)
                                     / (adj_value (cell_b ?t) * adj_value (cell_c ?t))))))"
    by (rule odds_quotient)
  then show ?thesis
    using assms(1) by (simp add: odds_ratio_section_def Let_def)
qed

lemma odds_23_of_40: "np_round (fl (23 / 40)) 2 = fl (57 / 100)"
  by code_simp

lemma odds_49_of_40: "np_round (fl (49 / 40)) 2 = fl (123 / 100)"
  by code_simp

lemma odds_hundredth: "np_round (fl (1 / 100)) 2 = fl (1 / 100)"
  by code_simp

lemma odds_four: "np_round (fl 4) 2 = 4"
  by code_simp

section \<open>Facts about the binner\<close>

text \<open>
  For strictly increasing edges, \<open>cut_code\<close> gives bin \<open>i\<close> exactly to the values above
  edge \<open>i\<close> and up to edge \<open>i + 1\<close>.
\<close>

lemma cut_code_Some_iff:
  assumes "sorted_wrt (<) bins"
  shows "(cut_code bins x = Some i)
           = (Suc i < length bins \<and> bins ! i < x \<and> x \<le> bins ! Suc i)"
proof
  let ?k = "length (takeWhile (\<lambda>e. e < x) bins)"
  assume "cut_code bins x = Some i"
  then have k: "?k = Suc i" "?k < length bins"
    using length_takeWhile_le [of "\<lambda>e. e < x" bins]
    by (auto simp add: cut_code_def searchsorted_left_def Let_def split: if_splits)
  have "takeWhile (\<lambda>e. e < x) bins ! i \<in> set (takeWhile (\<lambda>e. e < x) bins)"
    using k by simp
  then have "takeWhile (\<lambda>e. e < x) bins ! i < x"
    by (blast dest: set_takeWhileD)
  then have lo: "bins ! i < x" using k by (simp add: takeWhile_nth)
  have "\<not> bins ! ?k < x" using k(2) by (rule nth_length_takeWhile)
  then show "Suc i < length bins \<and> bins ! i < x \<and> x \<le> bins ! Suc i"
    using k lo by simp
next
  let ?k = "length (takeWhile (\<lambda>e. e < x) bins)"
  assume a: "Suc i < length bins \<and> bins ! i < x \<and> x \<le> bins ! Suc i"
  have "\<forall>j<Suc i. bins ! j < x"
  proof (intro allI impI)
    fix j assume "j < Suc i"
    then have "j = i \<or> j < i" by auto
    then show "bins ! j < x"
    proof
      assume "j = i" then show ?thesis using a by simp
    next
      assume "j < i"
      then have "bins ! j < bins ! i" using assms a by (simp add: sorted_wrt_nth_less)
      then show ?thesis using a by auto
    qed
  qed
  then have ge: "Suc i \<le> ?k" using a by (intro length_takeWhile_less_P_nth) auto
  have "\<not> Suc i < ?k"
  proof
    assume lt: "Suc i < ?k"
    then have "takeWhile (\<lambda>e. e < x) bins ! Suc i \<in> set (takeWhile (\<lambda>e. e < x) bins)"
      by simp
    then have "takeWhile (\<lambda>e. e < x) bins ! Suc i < x" by (blast dest: set_takeWhileD)
    then have "bins ! Suc i < x" using lt by (simp add: takeWhile_nth)
    then show False using a by auto
  qed
  then have "?k = Suc i" using ge by simp
  then show "cut_code bins x = Some i"
    using a by (simp add: cut_code_def searchsorted_left_def Let_def)
qed

lemma los_edges_increasing: "sorted_wrt (<) los_edges"
  by (simp add: los_edges_def)

lemma cut_code_los:
  "cut_code los_edges v =
     (if 0 < v \<and> v \<le> 2 then Some 0
      else if 2 < v \<and> v \<le> 4 then Some 1
      else if 4 < v \<and> v \<le> 6 then Some 2
      else if 6 < v \<and> v \<le> 8 then Some 3
      else if 8 < v \<and> v \<le> 10 then Some 4
      else if 10 < v \<and> v \<le> 20 then Some 5
      else None)"
  by (simp add: cut_code_def searchsorted_left_def los_edges_def Let_def)

lemma los_counts_sum:
  "sum_list (map snd (value_counts_sorted los_labels (map (cut_code los_edges) vs)))
     = length (filter (\<lambda>v. 0 < v \<and> v \<le> 20) vs)"
proof (induction vs)
  case Nil
  show ?case by (simp add: value_counts_sorted_def los_labels_def)
next
  case (Cons v vs)
  then show ?case
    by (simp add: value_counts_sorted_def los_labels_def cut_code_los)
qed

lemma los_labels_fst: "map fst (value_counts_sorted los_labels codes) = los_labels"
  by (simp add: value_counts_sorted_def los_labels_def)

lemma cut_code_los_None: "(cut_code los_edges v = None) = (v \<le> 0 \<or> 20 < v)"
  by (simp add: cut_code_los) linarith

lemma los_tab_nonempty:
  assumes "df \<noteq> []"
  shows "\<exists>dist. los_tab df = Shown dist \<and> map fst dist = los_labels
           \<and> sum_list (map snd dist)
               = length (filter (\<lambda>r. 0 < time_in_hospital r \<and> time_in_hospital r \<le> 20) df)"
proof -
  let ?dist = "value_counts_sorted los_labels
                 (map (cut_code los_edges) (map time_in_hospital df))"
  have t: "los_tab df = Shown ?dist"
    using assms by (simp add: los_tab_def del: map_map)
  have l: "map fst ?dist = los_labels" by (rule los_labels_fst)
  have "sum_list (map snd ?dist)
          = length (filter (\<lambda>v. 0 < v \<and> v \<le> 20) (map time_in_hospital df))"
    by (rule los_counts_sum)
  also have "\<dots> = length (filter (\<lambda>r. 0 < time_in_hospital r \<and> time_in_hospital r \<le> 20) df)"
    by (induction df) simp_all
  finally show ?thesis using t l by blast
qed

lemma poly_tab_empty: "poly_tab [] = Info ''No readmitted patients in current filters.''"
  by (simp add: poly_tab_def)

lemma los_tab_empty: "los_tab [] = Info ''No data available for current filters.''"
  by (simp add: los_tab_def)

text \<open>
  The medication bins are cut the same way: 10 medications fall in the bin labelled
  \<open>5-9\<close>, and 0 medications and a missing count get no bin.
\<close>

lemma poly_edges_at_boundaries:
  "cut_float poly_edges (Some 10) = Some 1 \<and> poly_labels ! 1 = ''5-9''
   \<and> cut_float poly_edges (Some 0) = None \<and> cut_float poly_edges None = None"
  by (simp add: cut_float_def cut_code_def searchsorted_left_def poly_edges_def poly_labels_def)

section \<open>Filter engine: the claims\<close>

text \<open>
  C1. For every data frame and every selection, a row is in the filtered frame exactly
  when it is a row of the data frame whose age group, gender and admission type are each
  in the corresponding selection; the filtered frame keeps the rows in their order and
  multiplicity (it is the list filter by that condition). When one of the three
  selections is empty, the filtered frame is empty.
\<close>

theorem C1_filter_exact:
  "get_filtered_data df ages genders adms =
     filter (\<lambda>r. age_group r \<in> set ages \<and> gender r \<in> set genders
                 \<and> admission_type_id r \<in> set adms) df
   \<and> set (get_filtered_data df ages genders adms) =
       {r. r \<in> set df \<and> age_group r \<in> set ages \<and> gender r \<in> set genders
             \<and> admission_type_id r \<in> set adms}
   \<and> get_filtered_data df [] genders adms = []
   \<and> get_filtered_data df ages [] adms = []
   \<and> get_filtered_data df ages genders [] = []"
  by (auto simp add: get_filtered_data_filter)

theorem C1_filter_exact_witness:
  "get_filtered_data
     [\<lparr>age_group = ''[70-80)'', gender = ''Female'', admission_type_id = 1,
        time_in_hospital = 3, num_medications = Some 12, readmitted = ''<30''\<rparr>,
      \<lparr>age_group = ''[60-70)'', gender = ''Male'', admission_type_id = 2,
        time_in_hospital = 4, num_medications = None, readmitted = ''NO''\<rparr>]
     [''[70-80)''] [''Female'', ''Male''] [1, 3]
   = [\<lparr>age_group = ''[70-80)'', gender = ''Female'', admission_type_id = 1,
        time_in_hospital = 3, num_medications = Some 12, readmitted = ''<30''\<rparr>]"
  using C1_filter_exact
    [of "[\<lparr>age_group = ''[70-80)'', gender = ''Female'', admission_type_id = 1,
        time_in_hospital = 3, num_medications = Some 12, readmitted = ''<30''\<rparr>,
      \<lparr>age_group = ''[60-70)'', gender = ''Male'', admission_type_id = 2,
        time_in_hospital = 4, num_medications = None, readmitted = ''NO''\<rparr>]"
      "[''[70-80)'']" "[''Female'', ''Male'']" "[1, 3]"]
  by simp

text \<open>
  C9. When each selection of the second filter is contained in the corresponding
  selection of the first, the second filter keeps at most as many rows as the first.
\<close>

theorem C9_filter_monotone:
  assumes "set ages2 \<subseteq> set ages1"
    and "set genders2 \<subseteq> set genders1"
    and "set adms2 \<subseteq> set adms1"
  shows "length (get_filtered_data df ages2 genders2 adms2)
           \<le> length (get_filtered_data df ages1 genders1 adms1)"
  unfolding get_filtered_data_filter
  using assms by (intro length_filter_mono) auto

theorem C9_filter_monotone_witness:
  "set [''[60-70)'', ''[70-80)''] \<subseteq> set [''[60-70)'', ''[70-80)'']
   \<and> set [''Female''] \<subseteq> set [''Female'', ''Male'']
   \<and> set [1, 2 :: int] \<subseteq> set [1, 2]
   \<and> length (get_filtered_data
        [\<lparr>age_group = ''[70-80)'', gender = ''Female'', admission_type_id = 1,
        time_in_hospital = 3, num_medications = Some 12, readmitted = ''<30''\<rparr>,
         \<lparr>age_group = ''[60-70)'', gender = ''Male'', admission_type_id = 2,
        time_in_hospital = 4, num_medications = None, readmitted = ''NO''\<rparr>]
        [''[60-70)'', ''[70-80)''] [''Female''] [1, 2])
     \<le> length (get_filtered_data
        [\<lparr>age_group = ''[70-80)'', gender = ''Female'', admission_type_id = 1,
        time_in_hospital = 3, num_medications = Some 12, readmitted = ''<30''\<rparr>,
         \<lparr>age_group = ''[60-70)'', gender = ''Male'', admission_type_id = 2,
        time_in_hospital = 4, num_medications = None, readmitted = ''NO''\<rparr>]
        [''[60-70)'', ''[70-80)''] [''Female'', ''Male''] [1, 2])"
proof -
  have a: "set [''[60-70)'', ''[70-80)''] \<subseteq> set [''[60-70)'', ''[70-80)'']" by simp
  have g: "set [''Female''] \<subseteq> set [''Female'', ''Male'']" by simp
  have m: "set [1, 2 :: int] \<subseteq> set [1, 2]" by simp
  show ?thesis using a g m C9_filter_monotone [OF a g m] by blast
qed

section \<open>KPI aggregator: the claims\<close>

text \<open>
  C2, as the specification states it, fails: the readmission rate is not the percentage
  rounded to one decimal. With 23 of 80 rows readmitted within 30 days the percentage is
  28.75, which rounds to 28.8, and the code returns 28.7 (the float64 product by 100 is
  28.749999999999996). With 49 of 80 rows the percentage is 61.25, which rounds half-even
  to 61.2, and the code returns 61.3. With 1 of 80 rows the percentage is 1.25 and the
  code returns 1.2. No rule for ties on the exact percentage gives all three results.
\<close>

theorem C2_exact_rounding_counterexample:
  "readmission_rate (compute_kpis
     (replicate 23 \<lparr>age_group = ''[70-80)'', gender = ''Female'', admission_type_id = 1,
          time_in_hospital = 3, num_medications = Some 12, readmitted = ''<30''\<rparr>
      @ replicate 57 \<lparr>age_group = ''[60-70)'', gender = ''Male'', admission_type_id = 2,
          time_in_hospital = 4, num_medications = None, readmitted = ''NO''\<rparr>))
     = Some (fl (287 / 10))
   \<and> round_ndigits (23 / 80 * 100) 1 = 144 / 5
   \<and> fl (287 / 10) \<noteq> fl (144 / 5)
   \<and> readmission_rate (compute_kpis
     (replicate 49 \<lparr>age_group = ''[70-80)'', gender = ''Female'', admission_type_id = 1,
          time_in_hospital = 3, num_medications = Some 12, readmitted = ''<30''\<rparr>
      @ replicate 31 \<lparr>age_group = ''[60-70)'', gender = ''Male'', admission_type_id = 2,
          time_in_hospital = 4, num_medications = None, readmitted = ''NO''\<rparr>))
     = Some (fl (613 / 10))
   \<and> round_ndigits (49 / 80 * 100) 1 = 306 / 5
   \<and> fl (613 / 10) \<noteq> fl (306 / 5)
   \<and> readmission_rate (compute_kpis
     (replicate 1 \<lparr>age_group = ''[70-80)'', gender = ''Female'', admission_type_id = 1,
          time_in_hospital = 3, num_medications = Some 12, readmitted = ''<30''\<rparr>
      @ replicate 79 \<lparr>age_group = ''[60-70)'', gender = ''Male'', admission_type_id = 2,
          time_in_hospital = 4, num_medications = None, readmitted = ''NO''\<rparr>))
     = Some (fl (6 / 5))
   \<and> round_ndigits (1 / 80 * 100) 1 = 6 / 5"
proof (intro conjI)
  show "round_ndigits (23 / 80 * 100) 1 = 144 / 5" by code_simp
  show "round_ndigits (49 / 80 * 100) 1 = 306 / 5" by code_simp
  show "round_ndigits (1 / 80 * 100) 1 = 6 / 5" by code_simp
  show "fl (287 / 10) \<noteq> fl (144 / 5)" by code_simp
  show "fl (613 / 10) \<noteq> fl (306 / 5)" by code_simp
qed (simp_all add: readmission_rate_nonempty percent_1_of_80 percent_23_of_80 percent_49_of_80)

text \<open>
  C2, amended. For every non-empty frame of fewer than \<open>2 ^ 53\<close> rows, the
  readmission rate that \<open>compute_kpis\<close> returns is a number (not NaN): the float64
  nearest to a one-decimal number \<open>m / 10\<close> that lies within \<open>0.05 + 2 ^ -44\<close> of
  the count of rows with \<open>readmitted = "<30"\<close> divided by the count of all rows, times
  100; the returned number itself is within \<open>0.05 + 2 ^ -43\<close> of that percentage.
  It is that percentage computed in float64 (the quotient, then the product by 100)
  and rounded by numpy (times 10, to the nearest integer, divided by 10); a percentage
  that is an exact tie between two one-decimal numbers may go to either. A frame of 10
  rows of which 3 have \<open>readmitted = "<30"\<close> gives 30.0.
\<close>

theorem C2_readmission_rate:
  assumes "df \<noteq> []" and "length df < 2 ^ 53"
  shows "(\<exists>m::int.
            readmission_rate (compute_kpis df) = Some (fl (of_int m / 10))
            \<and> \<bar>(of_int m :: rat) / 10
                 - of_nat (length (filter (\<lambda>r. readmitted r = ''<30'') df))
                     / of_nat (length df) * 100\<bar> \<le> 1 / 20 + 1 / 2 ^ 44
            \<and> \<bar>fl (of_int m / 10)
                 - of_nat (length (filter (\<lambda>r. readmitted r = ''<30'') df))
                     / of_nat (length df) * 100\<bar> \<le> 1 / 20 + 1 / 2 ^ 43)
         \<and> readmission_rate (compute_kpis df) =
             Some (np_round
                     (fl (fl (of_nat (length (filter (\<lambda>r. readmitted r = ''<30'') df))
                                / of_nat (length df)) * 100)) 1)
         \<and> (length df = 10 \<and> length (filter (\<lambda>r. readmitted r = ''<30'') df) = 3
              \<longrightarrow> readmission_rate (compute_kpis df) = Some 30)"
proof -
  let ?k = "length (filter (\<lambda>r. readmitted r = ''<30'') df)"
  have r: "readmission_rate (compute_kpis df) =
             Some (np_round (fl (fl (of_nat ?k / of_nat (length df)) * 100)) 1)"
    using assms by (rule readmission_rate_nonempty)
  have "?k \<le> length df" by simp
  moreover have "0 < length df" using assms(1) by simp
  ultimately obtain m :: int
    where "np_round (fl (fl (of_nat ?k / of_nat (length df)) * 100)) 1 = fl (of_int m / 10)"
      and "\<bar>(of_int m :: rat) / 10 - of_nat ?k / of_nat (length df) * 100\<bar>
             \<le> 1 / 20 + 1 / 2 ^ 44"
      and "\<bar>fl (of_int m / 10) - of_nat ?k / of_nat (length df) * 100\<bar>
             \<le> 1 / 20 + 1 / 2 ^ 43"
    using percent_near [of ?k "length df"] by blast
  then have ex: "\<exists>m::int.
            readmission_rate (compute_kpis df) = Some (fl (of_int m / 10))
            \<and> \<bar>(of_int m :: rat) / 10 - of_nat ?k / of_nat (length df) * 100\<bar>
                 \<le> 1 / 20 + 1 / 2 ^ 44
            \<and> \<bar>fl (of_int m / 10) - of_nat ?k / of_nat (length df) * 100\<bar>
                 \<le> 1 / 20 + 1 / 2 ^ 43"
    using r by auto
  have "readmission_rate (compute_kpis df) = Some 30"
    if "length df = 10 \<and> ?k = 3"
    using r that by (simp add: percent_3_of_10)
  then show ?thesis using ex r by blast
qed

theorem C2_readmission_rate_witness:
  "replicate 3 \<lparr>age_group = ''[70-80)'', gender = ''Female'', admission_type_id = 1,
        time_in_hospital = 3, num_medications = Some 12, readmitted = ''<30''\<rparr>
     @ replicate 7 \<lparr>age_group = ''[60-70)'', gender = ''Male'', admission_type_id = 2,
        time_in_hospital = 4, num_medications = None, readmitted = ''NO''\<rparr> \<noteq> []
   \<and> length (replicate 3 \<lparr>age_group = ''[70-80)'', gender = ''Female'', admission_type_id = 1,
        time_in_hospital = 3, num_medications = Some 12, readmitted = ''<30''\<rparr>
     @ replicate 7 \<lparr>age_group = ''[60-70)'', gender = ''Male'', admission_type_id = 2,
        time_in_hospital = 4, num_medications = None, readmitted = ''NO''\<rparr>) < 2 ^ 53
   \<and> readmission_rate (compute_kpis
       (replicate 3 \<lparr>age_group = ''[70-80)'', gender = ''Female'', admission_type_id = 1,
          time_in_hospital = 3, num_medications = Some 12, readmitted = ''<30''\<rparr>
        @ replicate 7 \<lparr>age_group = ''[60-70)'', gender = ''Male'', admission_type_id = 2,
          time_in_hospital = 4, num_medications = None, readmitted = ''NO''\<rparr>)) = Some 30"
proof -
  let ?F = "replicate 3 \<lparr>age_group = ''[70-80)'', gender = ''Female'', admission_type_id = 1,
          time_in_hospital = 3, num_medications = Some 12, readmitted = ''<30''\<rparr>
        @ replicate 7 \<lparr>age_group = ''[60-70)'', gender = ''Male'', admission_type_id = 2,
          time_in_hospital = 4, num_medications = None, readmitted = ''NO''\<rparr>"
  have ne: "?F \<noteq> []" by simp
  have lt: "length ?F < 2 ^ 53" by simp
  have "readmission_rate (compute_kpis ?F) = Some 30"
    using C2_readmission_rate [OF ne lt] by (simp add: percent_3_of_10)
  then show ?thesis using ne lt by blast
qed

text \<open>
  C3, as the specification states it, fails in the same way: with 23 of 80 readmitted
  rows at 10 or more medications (the other 57 have no medication count) the percentage
  is 28.75 and the code returns 28.7; with 49 of 80 it is 61.25 and the code returns
  61.3; with 1 of 80 it is 1.25 and the code returns 1.2.
\<close>

theorem C3_exact_rounding_counterexample:
  "polypharmacy_rate (compute_kpis
     (replicate 23 \<lparr>age_group = ''[70-80)'', gender = ''Female'', admission_type_id = 1,
          time_in_hospital = 3, num_medications = Some 12, readmitted = ''>30''\<rparr>
      @ replicate 57 \<lparr>age_group = ''[60-70)'', gender = ''Male'', admission_type_id = 2,
          time_in_hospital = 4, num_medications = None, readmitted = ''<30''\<rparr>))
     = Some (fl (287 / 10))
   \<and> round_ndigits (23 / 80 * 100) 1 = 144 / 5
   \<and> fl (287 / 10) \<noteq> fl (144 / 5)
   \<and> polypharmacy_rate (compute_kpis
     (replicate 49 \<lparr>age_group = ''[70-80)'', gender = ''Female'', admission_type_id = 1,
          time_in_hospital = 3, num_medications = Some 12, readmitted = ''>30''\<rparr>
      @ replicate 31 \<lparr>age_group = ''[60-70)'', gender = ''Male'', admission_type_id = 2,
          time_in_hospital = 4, num_medications = None, readmitted = ''<30''\<rparr>))
     = Some (fl (613 / 10))
   \<and> round_ndigits (49 / 80 * 100) 1 = 306 / 5
   \<and> fl (613 / 10) \<noteq> fl (306 / 5)
   \<and> polypharmacy_rate (compute_kpis
     (replicate 1 \<lparr>age_group = ''[70-80)'', gender = ''Female'', admission_type_id = 1,
          time_in_hospital = 3, num_medications = Some 12, readmitted = ''>30''\<rparr>
      @ replicate 79 \<lparr>age_group = ''[60-70)'', gender = ''Male'', admission_type_id = 2,
          time_in_hospital = 4, num_medications = None, readmitted = ''<30''\<rparr>))
     = Some (fl (6 / 5))
   \<and> round_ndigits (1 / 80 * 100) 1 = 6 / 5"
proof (intro conjI)
  show "round_ndigits (23 / 80 * 100) 1 = 144 / 5" by code_simp
  show "round_ndigits (49 / 80 * 100) 1 = 306 / 5" by code_simp
  show "round_ndigits (1 / 80 * 100) 1 = 6 / 5" by code_simp
  show "fl (287 / 10) \<noteq> fl (144 / 5)" by code_simp
  show "fl (613 / 10) \<noteq> fl (306 / 5)" by code_simp
qed (simp_all add: polypharmacy_rate_nonempty percent_1_of_80 percent_23_of_80
       percent_49_of_80)

text \<open>
  C3, amended. For every frame whose readmitted subset (the rows with \<open>readmitted\<close>
  \<open>"<30"\<close> or \<open>">30"\<close>) is non-empty and has fewer than \<open>2 ^ 53\<close> rows, the
  polypharmacy rate is a number: the float64 nearest to a one-decimal number
  \<open>m / 10\<close> that lies within \<open>0.05 + 2 ^ -44\<close> of the count of rows of the
  readmitted subset whose medication count is a number at least 10, divided by the count
  of the readmitted subset, times 100; the returned number itself is within
  \<open>0.05 + 2 ^ -43\<close> of that percentage. It is that percentage computed in float64 and
  rounded by numpy; an exact tie may go to either neighbour. A row with a missing
  medication count is in the denominator and not in the numerator, and raises nothing.
\<close>

theorem C3_polypharmacy_rate:
  assumes "rdf = filter (\<lambda>r. readmitted r = ''<30'' \<or> readmitted r = ''>30'') df"
    and "rdf \<noteq> []" and "length rdf < 2 ^ 53"
  shows "(\<exists>m::int.
            polypharmacy_rate (compute_kpis df) = Some (fl (of_int m / 10))
            \<and> \<bar>(of_int m :: rat) / 10
                 - of_nat (length (filter (\<lambda>r. case num_medications r of None \<Rightarrow> False
                                                | Some y \<Rightarrow> 10 \<le> y) rdf))
                     / of_nat (length rdf) * 100\<bar> \<le> 1 / 20 + 1 / 2 ^ 44
            \<and> \<bar>fl (of_int m / 10)
                 - of_nat (length (filter (\<lambda>r. case num_medications r of None \<Rightarrow> False
                                                | Some y \<Rightarrow> 10 \<le> y) rdf))
                     / of_nat (length rdf) * 100\<bar> \<le> 1 / 20 + 1 / 2 ^ 43)
         \<and> polypharmacy_rate (compute_kpis df) =
             Some (np_round
                     (fl (fl (of_nat (length (filter (\<lambda>r. case num_medications r of
                                                          None \<Rightarrow> False
                                                        | Some y \<Rightarrow> 10 \<le> y) rdf))
                                / of_nat (length rdf)) * 100)) 1)"
proof -
  let ?k = "length (filter (\<lambda>r. case num_medications r of None \<Rightarrow> False
                                 | Some y \<Rightarrow> 10 \<le> y) rdf)"
  have r: "polypharmacy_rate (compute_kpis df) =
             Some (np_round (fl (fl (of_nat ?k / of_nat (length rdf)) * 100)) 1)"
    using assms by (rule polypharmacy_rate_nonempty)
  have "?k \<le> length rdf" by simp
  moreover have "0 < length rdf" using assms(2) by simp
  ultimately obtain m :: int
    where "np_round (fl (fl (of_nat ?k / of_nat (length rdf)) * 100)) 1 = fl (of_int m / 10)"
      and "\<bar>(of_int m :: rat) / 10 - of_nat ?k / of_nat (length rdf) * 100\<bar>
             \<le> 1 / 20 + 1 / 2 ^ 44"
      and "\<bar>fl (of_int m / 10) - of_nat ?k / of_nat (length rdf) * 100\<bar>
             \<le> 1 / 20 + 1 / 2 ^ 43"
    using percent_near [of ?k "length rdf"] by blast
  then have "\<exists>m::int.
            polypharmacy_rate (compute_kpis df) = Some (fl (of_int m / 10))
            \<and> \<bar>(of_int m :: rat) / 10 - of_nat ?k / of_nat (length rdf) * 100\<bar>
                 \<le> 1 / 20 + 1 / 2 ^ 44
            \<and> \<bar>fl (of_int m / 10) - of_nat ?k / of_nat (length rdf) * 100\<bar>
                 \<le> 1 / 20 + 1 / 2 ^ 43"
    using r by auto
  then show ?thesis using r by blast
qed

theorem C3_polypharmacy_rate_witness:
  "[\<lparr>age_group = ''[70-80)'', gender = ''Female'', admission_type_id = 1,
      time_in_hospital = 3, num_medications = Some 12, readmitted = ''<30''\<rparr>,
    \<lparr>age_group = ''[60-70)'', gender = ''Male'', admission_type_id = 2,
      time_in_hospital = 4, num_medications = None, readmitted = ''>30''\<rparr>]
     = filter (\<lambda>r. readmitted r = ''<30'' \<or> readmitted r = ''>30'')
        [\<lparr>age_group = ''[70-80)'', gender = ''Female'', admission_type_id = 1,
           time_in_hospital = 3, num_medications = Some 12, readmitted = ''<30''\<rparr>,
         \<lparr>age_group = ''[50-60)'', gender = ''Female'', admission_type_id = 3,
           time_in_hospital = 1, num_medications = Some 15, readmitted = ''NO''\<rparr>,
         \<lparr>age_group = ''[60-70)'', gender = ''Male'', admission_type_id = 2,
           time_in_hospital = 4, num_medications = None, readmitted = ''>30''\<rparr>]
   \<and> polypharmacy_rate (compute_kpis
        [\<lparr>age_group = ''[70-80)'', gender = ''Female'', admission_type_id = 1,
           time_in_hospital = 3, num_medications = Some 12, readmitted = ''<30''\<rparr>,
         \<lparr>age_group = ''[50-60)'', gender = ''Female'', admission_type_id = 3,
           time_in_hospital = 1, num_medications = Some 15, readmitted = ''NO''\<rparr>,
         \<lparr>age_group = ''[60-70)'', gender = ''Male'', admission_type_id = 2,
           time_in_hospital = 4, num_medications = None, readmitted = ''>30''\<rparr>]) = Some 50"
proof -
  let ?df = "[\<lparr>age_group = ''[70-80)'', gender = ''Female'', admission_type_id = 1,
           time_in_hospital = 3, num_medications = Some 12, readmitted = ''<30''\<rparr>,
         \<lparr>age_group = ''[50-60)'', gender = ''Female'', admission_type_id = 3,
           time_in_hospital = 1, num_medications = Some 15, readmitted = ''NO''\<rparr>,
         \<lparr>age_group = ''[60-70)'', gender = ''Male'', admission_type_id = 2,
           time_in_hospital = 4, num_medications = None, readmitted = ''>30''\<rparr>]"
  let ?rdf = "[\<lparr>age_group = ''[70-80)'', gender = ''Female'', admission_type_id = 1,
      time_in_hospital = 3, num_medications = Some 12, readmitted = ''<30''\<rparr>,
    \<lparr>age_group = ''[60-70)'', gender = ''Male'', admission_type_id = 2,
      time_in_hospital = 4, num_medications = None, readmitted = ''>30''\<rparr>]"
  have f: "?rdf = filter (\<lambda>r. readmitted r = ''<30'' \<or> readmitted r = ''>30'') ?df" by simp
  have ne: "?rdf \<noteq> []" by simp
  have lt: "length ?rdf < 2 ^ 53" by simp
  have "polypharmacy_rate (compute_kpis ?df) = Some 50"
    using C3_polypharmacy_rate [OF f ne lt] by (simp add: percent_1_of_2)
  then show ?thesis using f by blast
qed




text \<open>
  C7. The empty frame gives a readmission rate, an average length of stay and a
  polypharmacy rate of exactly 0, not NaN and not an error; every frame whose readmitted
  subset is empty gives an average length of stay and a polypharmacy rate of exactly 0.
  For the empty frame the odds-ratio section computes nothing and shows its
  "Not enough data" message, and the two distribution tabs show their messages.
\<close>

theorem C7_empty_subsets:
  "readmission_rate (compute_kpis []) = Some 0
   \<and> avg_los_readmitted (compute_kpis []) = Some 0
   \<and> polypharmacy_rate (compute_kpis []) = Some 0
   \<and> (readmitted_df (compute_kpis df) = [] \<longrightarrow>
        avg_los_readmitted (compute_kpis df) = Some 0
        \<and> polypharmacy_rate (compute_kpis df) = Some 0)
   \<and> odds_ratio_section [] =
        Inr (Info ''Not enough data for odds ratio calculation under current filters.'')
   \<and> los_tab [] = Info ''No data available for current filters.''
   \<and> poly_tab (readmitted_df (compute_kpis [])) =
        Info ''No readmitted patients in current filters.''"
  using kpis_empty kpis_readmitted_empty [of df]
  by (simp add: odds_ratio_section_empty los_tab_def poly_tab_def)

theorem C7_empty_subsets_witness:
  "readmitted_df (compute_kpis
     [\<lparr>age_group = ''[60-70)'', gender = ''Male'', admission_type_id = 2,
       time_in_hospital = 4, num_medications = Some 11, readmitted = ''NO''\<rparr>]) = []
   \<and> avg_los_readmitted (compute_kpis
     [\<lparr>age_group = ''[60-70)'', gender = ''Male'', admission_type_id = 2,
       time_in_hospital = 4, num_medications = Some 11, readmitted = ''NO''\<rparr>]) = Some 0
   \<and> polypharmacy_rate (compute_kpis
     [\<lparr>age_group = ''[60-70)'', gender = ''Male'', admission_type_id = 2,
       time_in_hospital = 4, num_medications = Some 11, readmitted = ''NO''\<rparr>]) = Some 0"
  using C7_empty_subsets
    [of "[\<lparr>age_group = ''[60-70)'', gender = ''Male'', admission_type_id = 2,
       time_in_hospital = 4, num_medications = Some 11, readmitted = ''NO''\<rparr>]"]
  by (simp add: readmitted_df_filter)

section \<open>Association statistic: the claims\<close>

text \<open>
  C5, as the specification states it, fails: the odds ratio shown is not the ratio
  rounded to two decimals. Raw counts \<open>a = 0, b = 4, c = 5, d = 23\<close> give the ratio
  \<open>0.5 * 23 / (4 * 5) = 0.575\<close>, which rounds to 0.58, and the code shows 0.57 (the
  float64 quotient is 0.57499999999999996). Raw counts \<open>a = 7, b = 5, c = 8, d = 7\<close>
  give the ratio 1.225, which rounds half-even to 1.22, and the code shows 1.23.
\<close>

theorem C5_exact_rounding_counterexample:
  "odds_ratio_section
     (replicate 4 \<lparr>age_group = ''[70-80)'', gender = ''Female'', admission_type_id = 1,
          time_in_hospital = 3, num_medications = Some 12, readmitted = ''NO''\<rparr>
      @ replicate 5 \<lparr>age_group = ''[60-70)'', gender = ''Male'', admission_type_id = 2,
          time_in_hospital = 4, num_medications = Some 4, readmitted = ''<30''\<rparr>
      @ replicate 23 \<lparr>age_group = ''[60-70)'', gender = ''Male'', admission_type_id = 2,
          time_in_hospital = 4, num_medications = Some 4, readmitted = ''>30''\<rparr>)
     = Inr (Shown (Some (fl (57 / 100)),
                   \<lparr>cell_a = 0, cell_b = 4, cell_c = 5, cell_d = 23\<rparr>))
   \<and> round_ndigits (1 / 2 * 23 / (4 * 5)) 2 = 29 / 50
   \<and> fl (57 / 100) \<noteq> fl (29 / 50)
   \<and> odds_ratio_section
     (replicate 7 \<lparr>age_group = ''[70-80)'', gender = ''Female'', admission_type_id = 1,
          time_in_hospital = 3, num_medications = Some 12, readmitted = ''<30''\<rparr>
      @ replicate 5 \<lparr>age_group = ''[70-80)'', gender = ''Female'', admission_type_id = 1,
          time_in_hospital = 3, num_medications = Some 12, readmitted = ''NO''\<rparr>
      @ replicate 8 \<lparr>age_group = ''[60-70)'', gender = ''Male'', admission_type_id = 2,
          time_in_hospital = 4, num_medications = Some 4, readmitted = ''<30''\<rparr>
      @ replicate 7 \<lparr>age_group = ''[60-70)'', gender = ''Male'', admission_type_id = 2,
          time_in_hospital = 4, num_medications = Some 4, readmitted = ''>30''\<rparr>)
     = Inr (Shown (Some (fl (123 / 100)),
                   \<lparr>cell_a = 7, cell_b = 5, cell_c = 8, cell_d = 7\<rparr>))
   \<and> round_ndigits (7 * 7 / (5 * 8)) 2 = 61 / 50
   \<and> fl (123 / 100) \<noteq> fl (61 / 50)"
proof (intro conjI)
  show "round_ndigits (1 / 2 * 23 / (4 * 5)) 2 = 29 / 50" by code_simp
  show "round_ndigits (7 * 7 / (5 * 8)) 2 = 61 / 50" by code_simp
  show "fl (57 / 100) \<noteq> fl (29 / 50)" by code_simp
  show "fl (123 / 100) \<noteq> fl (61 / 50)" by code_simp
qed (simp_all add: odds_ratio_section_nonempty contingency_counts_filter is_polypharmacy_def
       is_readmit30_def adj_value_def odds_23_of_40 odds_49_of_40)

text \<open>
  C5, amended. Whenever the odds ratio is computed (the frame is non-empty), for a frame
  of fewer than \<open>2 ^ 26\<close> rows, the section shows the four raw counts
  \<open>a, b, c, d\<close> of the rows by the two flags polypharmacy
  (\<open>num_medications >= 10\<close>) and readmission within 30 days (\<open>readmitted = "<30"\<close>),
  and as odds ratio the float64 nearest to a two-decimal number \<open>m / 100\<close> that lies
  within \<open>0.005\<close> plus \<open>2 ^ -51\<close> times the ratio of the ratio
  \<open>a' * d' / (b' * c')\<close>, where a count of zero is replaced by one half in the ratio
  only; the number shown is itself within \<open>0.005 + 2 ^ -53\<close> plus \<open>2 ^ -50\<close> times
  the ratio of that ratio. It is that ratio computed in float64 and rounded by numpy; an exact tie may go to
  either neighbour. The division never fails. Raw counts \<open>a = 0, b = 5, c = 5, d = 0\<close>
  give the odds ratio 0.01.
\<close>

theorem C5_odds_ratio:
  assumes "df \<noteq> []" and "length df < 2 ^ 26"
  shows "(let a = length (filter (\<lambda>r. is_polypharmacy r \<and> is_readmit30 r) df);
              b = length (filter (\<lambda>r. is_polypharmacy r \<and> \<not> is_readmit30 r) df);
              c = length (filter (\<lambda>r. \<not> is_polypharmacy r \<and> is_readmit30 r) df);
              d = length (filter (\<lambda>r. \<not> is_polypharmacy r \<and> \<not> is_readmit30 r) df);
              corrected = (\<lambda>n. if n = 0 then 1 / 2 else of_nat n);
              ratio = corrected a * corrected d / (corrected b * corrected c)
          in (\<exists>m::int.
                odds_ratio_section df =
                  Inr (Shown (Some (fl (of_int m / 100)),
                              \<lparr>cell_a = a, cell_b = b, cell_c = c, cell_d = d\<rparr>))
                \<and> \<bar>(of_int m :: rat) / 100 - ratio\<bar> \<le> 1 / 200 + ratio / 2 ^ 51
                \<and> \<bar>fl (of_int m / 100) - ratio\<bar> \<le> 1 / 200 + 1 / 2 ^ 53 + ratio / 2 ^ 50)
             \<and> odds_ratio_section df =
                 Inr (Shown (Some (np_round (fl ratio) 2),
                             \<lparr>cell_a = a, cell_b = b, cell_c = c, cell_d = d\<rparr>))
             \<and> (a = 0 \<and> b = 5 \<and> c = 5 \<and> d = 0 \<longrightarrow>
                  odds_ratio_section df =
                    Inr (Shown (Some (fl (1 / 100)),
                                \<lparr>cell_a = 0, cell_b = 5, cell_c = 5, cell_d = 0\<rparr>))))"
proof -
  define a where "a = length (filter (\<lambda>r. is_polypharmacy r \<and> is_readmit30 r) df)"
  define b where "b = length (filter (\<lambda>r. is_polypharmacy r \<and> \<not> is_readmit30 r) df)"
  define c where "c = length (filter (\<lambda>r. \<not> is_polypharmacy r \<and> is_readmit30 r) df)"
  define d where "d = length (filter (\<lambda>r. \<not> is_polypharmacy r \<and> \<not> is_readmit30 r) df)"
  define ratio where "ratio = adj_value a * adj_value d / (adj_value b * adj_value c)"
  have t: "contingency_counts df = \<lparr>cell_a = a, cell_b = b, cell_c = c, cell_d = d\<rparr>"
    by (simp add: contingency_counts_filter a_def b_def c_def d_def)
  have s: "odds_ratio_section df =
             Inr (Shown (Some (np_round (fl ratio) 2),
                         \<lparr>cell_a = a, cell_b = b, cell_c = c, cell_d = d\<rparr>))"
    using odds_ratio_section_nonempty [OF assms] by (simp add: t ratio_def)
  have "0 \<le> ratio"
    using adj_value_pos [of a] adj_value_pos [of b] adj_value_pos [of c] adj_value_pos [of d]
    by (simp add: ratio_def)
  then obtain m :: int where "np_round (fl ratio) 2 = fl (of_int m / 10 ^ 2)"
    and "\<bar>of_int m / 10 ^ 2 - ratio\<bar> \<le> 1 / (2 * 10 ^ 2) + ratio / 2 ^ 51"
    and "\<bar>fl (of_int m / 10 ^ 2) - ratio\<bar> \<le> 1 / (2 * 10 ^ 2) + 1 / 2 ^ 53 + ratio / 2 ^ 50"
    using ratio_near [of ratio 2] by blast
  then have ex: "\<exists>m::int.
                odds_ratio_section df =
                  Inr (Shown (Some (fl (of_int m / 100)),
                              \<lparr>cell_a = a, cell_b = b, cell_c = c, cell_d = d\<rparr>))
                \<and> \<bar>(of_int m :: rat) / 100 - ratio\<bar> \<le> 1 / 200 + ratio / 2 ^ 51
                \<and> \<bar>fl (of_int m / 100) - ratio\<bar> \<le> 1 / 200 + 1 / 2 ^ 53 + ratio / 2 ^ 50"
    using s by auto
  have e: "odds_ratio_section df =
             Inr (Shown (Some (fl (1 / 100)),
                         \<lparr>cell_a = 0, cell_b = 5, cell_c = 5, cell_d = 0\<rparr>))"
    if "a = 0 \<and> b = 5 \<and> c = 5 \<and> d = 0"
    using s that by (simp add: ratio_def adj_value_def odds_hundredth)
  have "(\<exists>m::int.
                odds_ratio_section df =
                  Inr (Shown (Some (fl (of_int m / 100)),
                              \<lparr>cell_a = a, cell_b = b, cell_c = c, cell_d = d\<rparr>))
                \<and> \<bar>(of_int m :: rat) / 100 - ratio\<bar> \<le> 1 / 200 + ratio / 2 ^ 51
                \<and> \<bar>fl (of_int m / 100) - ratio\<bar> \<le> 1 / 200 + 1 / 2 ^ 53 + ratio / 2 ^ 50)
             \<and> odds_ratio_section df =
                 Inr (Shown (Some (np_round (fl ratio) 2),
                             \<lparr>cell_a = a, cell_b = b, cell_c = c, cell_d = d\<rparr>))
             \<and> (a = 0 \<and> b = 5 \<and> c = 5 \<and> d = 0 \<longrightarrow>
                  odds_ratio_section df =
                    Inr (Shown (Some (fl (1 / 100)),
                                \<lparr>cell_a = 0, cell_b = 5, cell_c = 5, cell_d = 0\<rparr>)))"
    using ex s e by blast
  then show ?thesis
    unfolding Let_def a_def b_def c_def d_def ratio_def adj_value_def .
qed

theorem C5_odds_ratio_witness:
  "replicate 5 \<lparr>age_group = ''[70-80)'', gender = ''Female'', admission_type_id = 1,
        time_in_hospital = 3, num_medications = Some 12, readmitted = ''NO''\<rparr>
     @ replicate 5 \<lparr>age_group = ''[60-70)'', gender = ''Male'', admission_type_id = 2,
        time_in_hospital = 4, num_medications = Some 4, readmitted = ''<30''\<rparr> \<noteq> []
   \<and> length (replicate 5 \<lparr>age_group = ''[70-80)'', gender = ''Female'', admission_type_id = 1,
        time_in_hospital = 3, num_medications = Some 12, readmitted = ''NO''\<rparr>
     @ replicate 5 \<lparr>age_group = ''[60-70)'', gender = ''Male'', admission_type_id = 2,
        time_in_hospital = 4, num_medications = Some 4, readmitted = ''<30''\<rparr>) < 2 ^ 26
   \<and> odds_ratio_section
       (replicate 5 \<lparr>age_group = ''[70-80)'', gender = ''Female'', admission_type_id = 1,
          time_in_hospital = 3, num_medications = Some 12, readmitted = ''NO''\<rparr>
        @ replicate 5 \<lparr>age_group = ''[60-70)'', gender = ''Male'', admission_type_id = 2,
          time_in_hospital = 4, num_medications = Some 4, readmitted = ''<30''\<rparr>)
     = Inr (Shown (Some (fl (1 / 100)), \<lparr>cell_a = 0, cell_b = 5, cell_c = 5, cell_d = 0\<rparr>))"
proof -
  let ?F = "replicate 5 \<lparr>age_group = ''[70-80)'', gender = ''Female'', admission_type_id = 1,
          time_in_hospital = 3, num_medications = Some 12, readmitted = ''NO''\<rparr>
        @ replicate 5 \<lparr>age_group = ''[60-70)'', gender = ''Male'', admission_type_id = 2,
          time_in_hospital = 4, num_medications = Some 4, readmitted = ''<30''\<rparr>"
  have ne: "?F \<noteq> []" by simp
  have lt: "length ?F < 2 ^ 26" by simp
  have "odds_ratio_section ?F
     = Inr (Shown (Some (fl (1 / 100)), \<lparr>cell_a = 0, cell_b = 5, cell_c = 5, cell_d = 0\<rparr>))"
    using C5_odds_ratio [OF ne lt]
    by (simp add: is_polypharmacy_def is_readmit30_def Let_def odds_hundredth)
  then show ?thesis using ne lt by blast
qed

text \<open>
  C8. For every frame, the four raw counts add up to the number of rows; this holds in
  particular for the table that the odds-ratio section shows.
\<close>

theorem C8_counts_sum:
  "cell_a (contingency_counts df) + cell_b (contingency_counts df)
     + cell_c (contingency_counts df) + cell_d (contingency_counts df) = length df
   \<and> (\<forall>shown t. odds_ratio_section df = Inr (Shown (shown, t)) \<longrightarrow>
         cell_a t + cell_b t + cell_c t + cell_d t = length df)"
  using odds_ratio_section_table [of df] by (auto simp add: counts_total)

theorem C8_counts_sum_witness:
  "odds_ratio_section
     [\<lparr>age_group = ''[70-80)'', gender = ''Female'', admission_type_id = 1,
       time_in_hospital = 3, num_medications = Some 12, readmitted = ''<30''\<rparr>,
      \<lparr>age_group = ''[60-70)'', gender = ''Male'', admission_type_id = 2,
       time_in_hospital = 4, num_medications = None, readmitted = ''NO''\<rparr>]
     = Inr (Shown (Some 4, \<lparr>cell_a = 1, cell_b = 0, cell_c = 0, cell_d = 1\<rparr>))
   \<and> cell_a \<lparr>cell_a = 1, cell_b = 0, cell_c = 0, cell_d = 1\<rparr>
     + cell_b \<lparr>cell_a = 1, cell_b = 0, cell_c = 0, cell_d = 1\<rparr>
     + cell_c \<lparr>cell_a = 1, cell_b = 0, cell_c = 0, cell_d = 1\<rparr>
     + cell_d \<lparr>cell_a = 1, cell_b = 0, cell_c = 0, cell_d = 1\<rparr>
     = length
     [\<lparr>age_group = ''[70-80)'', gender = ''Female'', admission_type_id = 1,
       time_in_hospital = 3, num_medications = Some 12, readmitted = ''<30''\<rparr>,
      \<lparr>age_group = ''[60-70)'', gender = ''Male'', admission_type_id = 2,
       time_in_hospital = 4, num_medications = None, readmitted = ''NO''\<rparr>]"
proof -
  have s: "odds_ratio_section
     [\<lparr>age_group = ''[70-80)'', gender = ''Female'', admission_type_id = 1,
       time_in_hospital = 3, num_medications = Some 12, readmitted = ''<30''\<rparr>,
      \<lparr>age_group = ''[60-70)'', gender = ''Male'', admission_type_id = 2,
       time_in_hospital = 4, num_medications = None, readmitted = ''NO''\<rparr>]
     = Inr (Shown (Some 4, \<lparr>cell_a = 1, cell_b = 0, cell_c = 0, cell_d = 1\<rparr>))"
    by (simp add: odds_ratio_section_nonempty contingency_counts_filter is_polypharmacy_def
          is_readmit30_def adj_value_def odds_four)
  show ?thesis
    using s C8_counts_sum
      [of "[\<lparr>age_group = ''[70-80)'', gender = ''Female'', admission_type_id = 1,
       time_in_hospital = 3, num_medications = Some 12, readmitted = ''<30''\<rparr>,
      \<lparr>age_group = ''[60-70)'', gender = ''Male'', admission_type_id = 2,
       time_in_hospital = 4, num_medications = None, readmitted = ''NO''\<rparr>]"]
    by blast
qed

text \<open>
  C10. A row whose medication count is missing has the polypharmacy flag False. Adding
  such a row to a frame, at any position, leaves the counts \<open>a\<close> and \<open>b\<close> as they
  were and adds one to \<open>c\<close> when the row is a readmission within 30 days and to
  \<open>d\<close> otherwise; the total of the four counts grows by one.
\<close>

theorem C10_missing_medications_row:
  assumes "num_medications r = None"
  shows "series_ge (map num_medications [r]) 10 = [False]
   \<and> contingency_counts (xs @ r # ys) =
       (let t = contingency_counts (xs @ ys)
        in if readmitted r = ''<30'' then t\<lparr>cell_c := cell_c t + 1\<rparr>
           else t\<lparr>cell_d := cell_d t + 1\<rparr>)
   \<and> cell_a (contingency_counts (xs @ r # ys)) + cell_b (contingency_counts (xs @ r # ys))
       + cell_c (contingency_counts (xs @ r # ys)) + cell_d (contingency_counts (xs @ r # ys))
     = cell_a (contingency_counts (xs @ ys)) + cell_b (contingency_counts (xs @ ys))
       + cell_c (contingency_counts (xs @ ys)) + cell_d (contingency_counts (xs @ ys)) + 1"
proof (intro conjI)
  show "series_ge (map num_medications [r]) 10 = [False]"
    using assms by (simp add: series_ge_def)
  show "contingency_counts (xs @ r # ys) =
       (let t = contingency_counts (xs @ ys)
        in if readmitted r = ''<30'' then t\<lparr>cell_c := cell_c t + 1\<rparr>
           else t\<lparr>cell_d := cell_d t + 1\<rparr>)"
    using assms by (rule counts_missing_row)
  show "cell_a (contingency_counts (xs @ r # ys)) + cell_b (contingency_counts (xs @ r # ys))
       + cell_c (contingency_counts (xs @ r # ys)) + cell_d (contingency_counts (xs @ r # ys))
     = cell_a (contingency_counts (xs @ ys)) + cell_b (contingency_counts (xs @ ys))
       + cell_c (contingency_counts (xs @ ys)) + cell_d (contingency_counts (xs @ ys)) + 1"
    by (simp add: counts_total)
qed

theorem C10_missing_medications_row_witness:
  "num_medications \<lparr>age_group = ''[60-70)'', gender = ''Male'', admission_type_id = 2,
       time_in_hospital = 4, num_medications = None, readmitted = ''<30''\<rparr> = None
   \<and> contingency_counts
     ([\<lparr>age_group = ''[70-80)'', gender = ''Female'', admission_type_id = 1,
       time_in_hospital = 3, num_medications = Some 12, readmitted = ''<30''\<rparr>]
      @ \<lparr>age_group = ''[60-70)'', gender = ''Male'', admission_type_id = 2,
       time_in_hospital = 4, num_medications = None, readmitted = ''<30''\<rparr> # [])
     = \<lparr>cell_a = 1, cell_b = 0, cell_c = 1, cell_d = 0\<rparr>"
  using C10_missing_medications_row
    [of "\<lparr>age_group = ''[60-70)'', gender = ''Male'', admission_type_id = 2,
       time_in_hospital = 4, num_medications = None, readmitted = ''<30''\<rparr>"
      "[\<lparr>age_group = ''[70-80)'', gender = ''Female'', admission_type_id = 1,
       time_in_hospital = 3, num_medications = Some 12, readmitted = ''<30''\<rparr>]" "[]"]
  by (simp add: contingency_counts_filter is_polypharmacy_def is_readmit30_def)

section \<open>Distribution binner: the claims\<close>

text \<open>
  C6, as the specification states it, fails on the length-of-stay bins: the bins are not
  closed on the left and open on the right. A stay of 2 days is counted in the first bin
  (label \<open>1-2\<close>), though the half-open reading puts it in the second; a stay of 0 days
  gets no bin, though the half-open reading puts it in the first; a stay of 20 days is
  counted in the last bin, though the half-open reading excludes it.
\<close>

theorem C6_half_open_counterexample:
  "cut_code los_edges 2 = Some 0
   \<and> \<not> in_half_open_bin los_edges 0 2
   \<and> in_half_open_bin los_edges 1 2
   \<and> cut_code los_edges 0 = None
   \<and> in_half_open_bin los_edges 0 0
   \<and> cut_code los_edges 20 = Some 5
   \<and> \<not> in_half_open_bin los_edges 5 20"
  by (simp add: cut_code_los) (simp add: in_half_open_bin_def los_edges_def)

text \<open>
  C6, amended. A length of stay \<open>v\<close> is assigned to bin \<open>i\<close> of the edges
  0, 2, 4, 6, 8, 10, 20 exactly when edge \<open>i\<close> is below \<open>v\<close> and \<open>v\<close> is at most
  edge \<open>i + 1\<close>: the bins are open on the left and closed on the right, so a boundary
  value belongs to the bin that ends at it, and 20 belongs to the last bin. A value gets
  no bin exactly when it is at most 0 or above 20. For a non-empty frame the tab shows
  one count per label, in label order, and the counts add up to the number of rows with a
  stay above 0 and at most 20: the other rows are left out, and nothing fails.
\<close>

theorem C6_los_bins_right_closed:
  "(cut_code los_edges v = Some i) = (i < 6 \<and> los_edges ! i < v \<and> v \<le> los_edges ! Suc i)
   \<and> (cut_code los_edges v = None) = (v \<le> 0 \<or> 20 < v)
   \<and> (df \<noteq> [] \<longrightarrow>
        (\<exists>dist. los_tab df = Shown dist \<and> map fst dist = los_labels
           \<and> sum_list (map snd dist)
               = length (filter (\<lambda>r. 0 < time_in_hospital r \<and> time_in_hospital r \<le> 20) df)))"
proof (intro conjI impI)
  have "length los_edges = 7" by (simp add: los_edges_def)
  then show "(cut_code los_edges v = Some i)
               = (i < 6 \<and> los_edges ! i < v \<and> v \<le> los_edges ! Suc i)"
    using cut_code_Some_iff [OF los_edges_increasing, of v i] by auto
  show "(cut_code los_edges v = None) = (v \<le> 0 \<or> 20 < v)"
    by (rule cut_code_los_None)
  show "\<exists>dist. los_tab df = Shown dist \<and> map fst dist = los_labels
           \<and> sum_list (map snd dist)
               = length (filter (\<lambda>r. 0 < time_in_hospital r \<and> time_in_hospital r \<le> 20) df)"
    if "df \<noteq> []" using that by (rule los_tab_nonempty)
qed

theorem C6_los_bins_right_closed_witness:
  "cut_code los_edges 2 = Some 0
   \<and> cut_code los_edges 20 = Some 5
   \<and> cut_code los_edges 0 = None
   \<and> [\<lparr>age_group = ''[70-80)'', gender = ''Female'', admission_type_id = 1,
        time_in_hospital = 2, num_medications = Some 12, readmitted = ''<30''\<rparr>,
       \<lparr>age_group = ''[60-70)'', gender = ''Male'', admission_type_id = 2,
        time_in_hospital = 25, num_medications = None, readmitted = ''NO''\<rparr>] \<noteq> []
   \<and> (\<exists>dist. los_tab
        [\<lparr>age_group = ''[70-80)'', gender = ''Female'', admission_type_id = 1,
          time_in_hospital = 2, num_medications = Some 12, readmitted = ''<30''\<rparr>,
         \<lparr>age_group = ''[60-70)'', gender = ''Male'', admission_type_id = 2,
          time_in_hospital = 25, num_medications = None, readmitted = ''NO''\<rparr>] = Shown dist
        \<and> map fst dist = los_labels \<and> sum_list (map snd dist) = 1)"
  using C6_los_bins_right_closed [of 2 0
      "[\<lparr>age_group = ''[70-80)'', gender = ''Female'', admission_type_id = 1,
          time_in_hospital = 2, num_medications = Some 12, readmitted = ''<30''\<rparr>,
         \<lparr>age_group = ''[60-70)'', gender = ''Male'', admission_type_id = 2,
          time_in_hospital = 25, num_medications = None, readmitted = ''NO''\<rparr>]"]
    C6_los_bins_right_closed [of 20 5 "[]"]
    C6_los_bins_right_closed [of 0 0 "[]"]
  by (simp add: los_edges_def)

end
